theory Spec2Isabelle
  imports Main "HOL-Library.Word"
begin

section \<open>The block synchroniser of \<^verbatim>\<open>syncer/syncer.go\<close>\<close>

text \<open>
  The development embeds \<^verbatim>\<open>HasSyncPeer\<close>, \<^verbatim>\<open>BulkSync\<close>, \<^verbatim>\<open>WatchSync\<close> and
  \<^verbatim>\<open>bulkSyncWithPeer\<close>. The collaborators of the syncer are Go interfaces whose
  implementations are not in this file; they are parameters of the model:

  \<^item> the block chain store is a record of its three methods over an abstract chain
    state \<open>'c\<close>;
  \<^item> the caller's callback is a closure: a function over its own state \<open>'k\<close>;
  \<^item> a block stream is what the channel returned by \<^verbatim>\<open>GetBlocks\<close> delivers: finitely
    many blocks, after which the \<^verbatim>\<open>select\<close> of the receive loop observes either
    the closed channel or the firing of \<^verbatim>\<open>time.After(blockTimeout)\<close>;
  \<^item> every call that crosses the interface boundary is appended to a trace, so that
    the order and the number of the calls can be stated.

  A nil pointer dereference is the result \<open>Panic\<close>. The logger is not modelled, and the
  \<^verbatim>\<open>ctx\<close> argument of the two modes is unused by the source.

  What the model takes for granted: the blocks on a channel are not nil pointers; a
  stream delivers finitely many blocks before it is closed or falls idle; the peer
  map does not change while \<^verbatim>\<open>BulkSync\<close> runs (in \<^verbatim>\<open>WatchSync\<close> every wake-up brings
  its own table); the chain store changes only through the \<^verbatim>\<open>WriteBlock\<close> calls of the
  syncer. The receive loop is embedded twice: \<open>recvLoop\<close> takes what the rounds of the
  \<^verbatim>\<open>select\<close> observe, \<open>recvLoopT\<close> takes the arrival times and decides each round
  against the timer; \<open>recvLoopT_refines\<close> relates the two.
\<close>

subsection \<open>Data\<close>

type_synonym uint64 = "64 word"
type_synonym peer_ID = string
type_synonym Duration = int

text \<open>\<^verbatim>\<open>types.Block\<close>: the code reads only \<^verbatim>\<open>block.Number()\<close>; the rest of the block is
  an opaque body.\<close>

datatype Block = Block (Block_Number: uint64) (Block_Body: nat)

text \<open>\<^verbatim>\<open>NoForkPeer\<close>, an entry of the peer map: the code reads \<^verbatim>\<open>ID\<close> and \<^verbatim>\<open>Number\<close>.\<close>

record NoForkPeer =
  ID :: peer_ID
  Number :: uint64

text \<open>Errors: \<^verbatim>\<open>errTimeout\<close>, an error of a collaborator, and the two wrappers that
  \<^verbatim>\<open>bulkSyncWithPeer\<close> builds with \<^verbatim>\<open>fmt.Errorf\<close>.\<close>

datatype error =
    errTimeout
  | Err string
  | UnableToVerifyBlock error
  | FailedToWriteBlock error

text \<open>How the receive loop stops being fed: the channel is closed (\<^verbatim>\<open>!ok\<close>), or no
  block arrives before the timer fires.\<close>

datatype recv_end = ChClosed | TimerFired

type_synonym block_stream = "Block list \<times> recv_end"

datatype event =
    EvSubscribeEvents
  | EvStartProgression uint64
  | EvUpdateHighestProgression uint64
  | EvStopProgression
  | EvGetBlocks peer_ID uint64 Duration
  | EvCloseStream peer_ID
  | EvVerifyFinalizedBlock Block
  | EvWriteBlock Block
  | EvCallback Block bool

text \<open>The \<^verbatim>\<open>Blockchain\<close> interface. \<open>Header\<close> is \<open>None\<close> for a nil header and
  \<open>Some n\<close> for a header whose \<^verbatim>\<open>Number\<close> is \<open>n\<close>; an error result \<open>None\<close> is Go's
  nil error.\<close>

record 'c Blockchain =
  Header :: "'c \<Rightarrow> uint64 option"
  VerifyFinalizedBlock :: "'c \<Rightarrow> Block \<Rightarrow> error option"
  WriteBlock :: "'c \<Rightarrow> Block \<Rightarrow> error option \<times> 'c"

text \<open>The fields of the \<^verbatim>\<open>syncer\<close> struct that the four functions use. \<open>GetBlocks\<close> is
  the method of \<^verbatim>\<open>syncPeerClient\<close>: an error, or the stream.\<close>

record 'c syncer =
  blockchain :: "'c Blockchain"
  GetBlocks :: "peer_ID \<Rightarrow> uint64 \<Rightarrow> Duration \<Rightarrow> error + block_stream"
  blockTimeout :: Duration

text \<open>The state that a run threads: the chain store, the callback's closure state
  and the trace of interface calls.\<close>

record ('c, 'k) world =
  chain :: 'c
  cbstate :: 'k
  trace :: "event list"

type_synonym ('c, 'k) callback = "'k \<Rightarrow> Block \<Rightarrow> bool \<times> 'k"

datatype 'a result = Panic | Returned 'a

definition emit :: "event \<Rightarrow> ('c, 'k) world \<Rightarrow> ('c, 'k) world" where
  "emit e w = w\<lparr>trace := trace w @ [e]\<rparr>"

subsection \<open>The peer map\<close>

text \<open>
  Modelled from the spec: \<^verbatim>\<open>PeerMap.BestPeer\<close>, whose source is in another file of
  the package. The spec: the candidate is the entry with the maximum \<^verbatim>\<open>number\<close> among
  the entries whose peer is not in the skip set, and there is no candidate when the
  table minus the skip set is empty. The table is the list of its entries in the
  order of iteration; among entries of equal height the first one met is kept. The
  skip list \<^verbatim>\<open>map[peer.ID]bool\<close> only ever receives \<^verbatim>\<open>true\<close>, so it is a set; a nil map
  is the empty set.
\<close>

definition better :: "peer_ID set \<Rightarrow> NoForkPeer \<Rightarrow> NoForkPeer option \<Rightarrow> NoForkPeer option" where
  "better skipList p best =
     (if ID p \<in> skipList then best
      else case best of
             None \<Rightarrow> Some p
           | Some b \<Rightarrow> if Number b < Number p then Some p else Some b)"

definition BestPeer :: "NoForkPeer list \<Rightarrow> peer_ID set \<Rightarrow> NoForkPeer option" where
  "BestPeer peerMap skipList = fold (better skipList) peerMap None"

subsection \<open>HasSyncPeer\<close>

text \<open>The pointer \<^verbatim>\<open>s.peerMap\<close> is tested for nil here and only here, so the table is
  optional in this function and a value in the two modes (\<^verbatim>\<open>NewSyncer\<close> allocates it).
  The conjunction of the source is short-circuit: \<^verbatim>\<open>header.Number\<close> is read only when
  \<^verbatim>\<open>bestPeer != nil\<close>.\<close>

definition HasSyncPeer :: "'c syncer \<Rightarrow> NoForkPeer list option \<Rightarrow> 'c \<Rightarrow> bool result" where
  "HasSyncPeer s peerMap c =
     (case peerMap of
        None \<Rightarrow> Returned False
      | Some m \<Rightarrow>
          (case BestPeer m {} of
             None \<Rightarrow> Returned False
           | Some bestPeer \<Rightarrow>
               (case Header (blockchain s) c of
                  None \<Rightarrow> Panic
                | Some n \<Rightarrow> Returned (Number bestPeer > n))))"

subsection \<open>bulkSyncWithPeer\<close>

text \<open>The \<^verbatim>\<open>for { select { ... } }\<close> loop, by recursion on what the channel still
  delivers. The accumulators are \<^verbatim>\<open>lastReceivedNumber\<close> and \<^verbatim>\<open>shouldTerminate\<close>.\<close>

fun recvLoop ::
  "'c syncer \<Rightarrow> ('c, 'k) callback \<Rightarrow> Block list \<Rightarrow> recv_end \<Rightarrow> uint64 \<Rightarrow> bool \<Rightarrow>
   ('c, 'k) world \<Rightarrow> (uint64 \<times> bool \<times> error option) \<times> ('c, 'k) world" where
  "recvLoop s cb [] ChClosed lastReceivedNumber shouldTerminate w =
     ((lastReceivedNumber, shouldTerminate, None), w)"
| "recvLoop s cb [] TimerFired lastReceivedNumber shouldTerminate w =
     ((lastReceivedNumber, shouldTerminate, Some errTimeout), w)"
| "recvLoop s cb (block # rest) e lastReceivedNumber shouldTerminate w =
     (if Block_Number block = 0 then recvLoop s cb rest e lastReceivedNumber shouldTerminate w
      else
        let w1 = emit (EvVerifyFinalizedBlock block) w in
        case VerifyFinalizedBlock (blockchain s) (chain w1) block of
          Some err \<Rightarrow> ((lastReceivedNumber, False, Some (UnableToVerifyBlock err)), w1)
        | None \<Rightarrow>
            let (werr, c') = WriteBlock (blockchain s) (chain w1) block;
                w2 = emit (EvWriteBlock block) (w1\<lparr>chain := c'\<rparr>)
            in case werr of
                 Some err \<Rightarrow> ((lastReceivedNumber, False, Some (FailedToWriteBlock err)), w2)
               | None \<Rightarrow>
                   let (t, k') = cb (cbstate w2) block;
                       w3 = emit (EvCallback block t) (w2\<lparr>cbstate := k'\<rparr>)
                   in recvLoop s cb rest e (Block_Number block) t w3)"

text \<open>The same loop with its timer. Every round of the \<^verbatim>\<open>select\<close> evaluates
  \<^verbatim>\<open>time.After(s.blockTimeout)\<close> anew, so every round waits for the whole timeout. An
  arrival \<open>(d, block)\<close> is a block that reaches the channel the time \<open>d\<close> after the
  round that receives it began; \<open>ClosedAfter d\<close> is a channel closed the time \<open>d\<close> after
  the last round began, \<open>NeverClosed\<close> one that stays open and silent. A round takes
  the timer case when the timeout has passed, \<open>blockTimeout s \<le> d\<close> (when both cases
  are ready at once Go picks either; the model takes the timer). The time that
  \<^verbatim>\<open>VerifyFinalizedBlock\<close>, \<^verbatim>\<open>WriteBlock\<close> and the callback take is not counted.\<close>

datatype chan_end = ClosedAfter Duration | NeverClosed

type_synonym arrivals = "(Duration \<times> Block) list"

fun recvLoopT ::
  "'c syncer \<Rightarrow> ('c, 'k) callback \<Rightarrow> arrivals \<Rightarrow> chan_end \<Rightarrow> uint64 \<Rightarrow> bool \<Rightarrow>
   ('c, 'k) world \<Rightarrow> (uint64 \<times> bool \<times> error option) \<times> ('c, 'k) world" where
  "recvLoopT s cb [] (ClosedAfter d) lastReceivedNumber shouldTerminate w =
     (if d < blockTimeout s then ((lastReceivedNumber, shouldTerminate, None), w)
      else ((lastReceivedNumber, shouldTerminate, Some errTimeout), w))"
| "recvLoopT s cb [] NeverClosed lastReceivedNumber shouldTerminate w =
     ((lastReceivedNumber, shouldTerminate, Some errTimeout), w)"
| "recvLoopT s cb ((d, block) # rest) e lastReceivedNumber shouldTerminate w =
     (if blockTimeout s \<le> d then ((lastReceivedNumber, shouldTerminate, Some errTimeout), w)
      else if Block_Number block = 0 then recvLoopT s cb rest e lastReceivedNumber shouldTerminate w
      else
        let w1 = emit (EvVerifyFinalizedBlock block) w in
        case VerifyFinalizedBlock (blockchain s) (chain w1) block of
          Some err \<Rightarrow> ((lastReceivedNumber, False, Some (UnableToVerifyBlock err)), w1)
        | None \<Rightarrow>
            let (werr, c') = WriteBlock (blockchain s) (chain w1) block;
                w2 = emit (EvWriteBlock block) (w1\<lparr>chain := c'\<rparr>)
            in case werr of
                 Some err \<Rightarrow> ((lastReceivedNumber, False, Some (FailedToWriteBlock err)), w2)
               | None \<Rightarrow>
                   let (t, k') = cb (cbstate w2) block;
                       w3 = emit (EvCallback block t) (w2\<lparr>cbstate := k'\<rparr>)
                   in recvLoopT s cb rest e (Block_Number block) t w3)"

text \<open>The deferred \<^verbatim>\<open>CloseStream\<close> is registered after \<^verbatim>\<open>GetBlocks\<close> succeeded, so it
  runs on every exit of the loop and on no earlier exit.\<close>

definition bulkSyncWithPeer ::
  "'c syncer \<Rightarrow> peer_ID \<Rightarrow> ('c, 'k) callback \<Rightarrow> ('c, 'k) world \<Rightarrow>
   (uint64 \<times> bool \<times> error option) result \<times> ('c, 'k) world" where
  "bulkSyncWithPeer s peerID newBlockCallback w =
     (case Header (blockchain s) (chain w) of
        None \<Rightarrow> (Panic, w)
      | Some localLatest \<Rightarrow>
          let w1 = emit (EvGetBlocks peerID (localLatest + 1) (blockTimeout s)) w in
          case GetBlocks s peerID (localLatest + 1) (blockTimeout s) of
            Inl err \<Rightarrow> (Returned (0, False, Some err), w1)
          | Inr (blockCh, e) \<Rightarrow>
              let (r, w2) = recvLoop s newBlockCallback blockCh e 0 False w1
              in (Returned r, emit (EvCloseStream peerID) w2))"

subsection \<open>BulkSync\<close>

definition updateLocalLatest :: "'c syncer \<Rightarrow> 'c \<Rightarrow> uint64 \<Rightarrow> uint64" where
  "updateLocalLatest s c localLatest =
     (case Header (blockchain s) c of None \<Rightarrow> localLatest | Some n \<Rightarrow> n)"

text \<open>One pass through the body of the \<^verbatim>\<open>for\<close> loop. The two \<^verbatim>\<open>break\<close> statements are
  told apart: \<open>NoCandidate\<close> is the one after \<^verbatim>\<open>BestPeer\<close>, \<open>FullySynced\<close> the one after
  a pull without error that reached the peer's height.\<close>

datatype ('c, 'k) bulk_step =
    NoCandidate "('c, 'k) world"
  | FullySynced "('c, 'k) world"
  | TryNext uint64 "peer_ID set" "('c, 'k) world"
  | Panicked "('c, 'k) world"

definition BulkSync_body ::
  "'c syncer \<Rightarrow> ('c, 'k) callback \<Rightarrow> NoForkPeer list \<Rightarrow> uint64 \<Rightarrow> peer_ID set \<Rightarrow>
   ('c, 'k) world \<Rightarrow> ('c, 'k) bulk_step" where
  "BulkSync_body s newBlockCallback peerMap localLatest skipList w =
     (case BestPeer peerMap skipList of
        None \<Rightarrow> NoCandidate w
      | Some bestPeer \<Rightarrow>
          if Number bestPeer \<le> localLatest then NoCandidate w
          else
            let w1 = emit (EvUpdateHighestProgression (Number bestPeer)) w in
            case bulkSyncWithPeer s (ID bestPeer) newBlockCallback w1 of
              (Panic, w2) \<Rightarrow> Panicked w2
            | (Returned (lastNumber, _, err), w2) \<Rightarrow>
                if err = None \<and> lastNumber \<ge> Number bestPeer then FullySynced w2
                else TryNext (updateLocalLatest s (chain w2) localLatest)
                             (insert (ID bestPeer) skipList) w2)"

datatype loop_exit = ExitNoCandidate | ExitFullySynced | ExitPanic

partial_function (option) BulkSync_loop ::
  "'c syncer \<Rightarrow> ('c, 'k) callback \<Rightarrow> NoForkPeer list \<Rightarrow> uint64 \<Rightarrow> peer_ID set \<Rightarrow>
   ('c, 'k) world \<Rightarrow> (loop_exit \<times> ('c, 'k) world) option" where
  "BulkSync_loop s newBlockCallback peerMap localLatest skipList w =
     (case BulkSync_body s newBlockCallback peerMap localLatest skipList w of
        NoCandidate w' \<Rightarrow> Some (ExitNoCandidate, w')
      | FullySynced w' \<Rightarrow> Some (ExitFullySynced, w')
      | Panicked w' \<Rightarrow> Some (ExitPanic, w')
      | TryNext localLatest' skipList' w' \<Rightarrow>
          BulkSync_loop s newBlockCallback peerMap localLatest' skipList' w')"

text \<open>The whole of \<^verbatim>\<open>BulkSync\<close>. The deferred \<^verbatim>\<open>StopProgression\<close> runs on the return
  and while a panic unwinds. The only \<^verbatim>\<open>return\<close> statement returns nil.\<close>

definition BulkSync ::
  "'c syncer \<Rightarrow> ('c, 'k) callback \<Rightarrow> NoForkPeer list \<Rightarrow> ('c, 'k) world \<Rightarrow>
   (error option result \<times> ('c, 'k) world) option" where
  "BulkSync s newBlockCallback peerMap w =
     (let localLatest = updateLocalLatest s (chain w) 0;
          w0 = emit (EvStartProgression (localLatest + 1)) (emit EvSubscribeEvents w)
      in case BulkSync_loop s newBlockCallback peerMap localLatest {} w0 of
           None \<Rightarrow> None
         | Some (ExitPanic, w') \<Rightarrow> Some (Panic, emit EvStopProgression w')
         | Some (_, w') \<Rightarrow> Some (Returned None, emit EvStopProgression w'))"

subsection \<open>WatchSync\<close>

text \<open>One pass through the body of the \<^verbatim>\<open>for\<close> loop, after the receive on
  \<^verbatim>\<open>newStatusCh\<close> returned. The peer map is written by the two listener goroutines, so
  each wake-up comes with the table that \<^verbatim>\<open>BestPeer\<close> reads at that moment.\<close>

datatype ('c, 'k) watch_step =
    Continue uint64 "peer_ID set" "('c, 'k) world"
  | Break "('c, 'k) world"
  | WPanicked "('c, 'k) world"

definition WatchSync_body ::
  "'c syncer \<Rightarrow> ('c, 'k) callback \<Rightarrow> NoForkPeer list \<Rightarrow> uint64 \<Rightarrow> peer_ID set \<Rightarrow>
   ('c, 'k) world \<Rightarrow> ('c, 'k) watch_step" where
  "WatchSync_body s callback peerMap localLatest0 skipList w =
     (let localLatest = updateLocalLatest s (chain w) localLatest0 in
      case BestPeer peerMap skipList of
        None \<Rightarrow> Continue localLatest {} w
      | Some bestPeer \<Rightarrow>
          if Number bestPeer \<le> localLatest then Continue localLatest skipList w
          else
            case bulkSyncWithPeer s (ID bestPeer) callback w of
              (Panic, w2) \<Rightarrow> WPanicked w2
            | (Returned (lastNumber, shouldTerminate, err), w2) \<Rightarrow>
                if err \<noteq> None \<or> lastNumber < Number bestPeer
                then Continue localLatest (insert (ID bestPeer) skipList) w2
                else if shouldTerminate then Break w2
                else Continue localLatest skipList w2)"

text \<open>The loop over the wake-ups that arrive. When none is left the mode is blocked in
  the receive on \<^verbatim>\<open>newStatusCh\<close>.\<close>

datatype watch_result = WatchPanic | WatchReturned "error option" | WatchBlocked

fun WatchSync_loop ::
  "'c syncer \<Rightarrow> ('c, 'k) callback \<Rightarrow> NoForkPeer list list \<Rightarrow> uint64 \<Rightarrow> peer_ID set \<Rightarrow>
   ('c, 'k) world \<Rightarrow> watch_result \<times> ('c, 'k) world" where
  "WatchSync_loop s callback [] localLatest skipList w = (WatchBlocked, w)"
| "WatchSync_loop s callback (peerMap # wakeups) localLatest skipList w =
     (case WatchSync_body s callback peerMap localLatest skipList w of
        Continue localLatest' skipList' w' \<Rightarrow>
          WatchSync_loop s callback wakeups localLatest' skipList' w'
      | Break w' \<Rightarrow> (WatchReturned None, w')
      | WPanicked w' \<Rightarrow> (WatchPanic, w'))"

definition WatchSync ::
  "'c syncer \<Rightarrow> ('c, 'k) callback \<Rightarrow> NoForkPeer list list \<Rightarrow> ('c, 'k) world \<Rightarrow>
   watch_result \<times> ('c, 'k) world" where
  "WatchSync s callback wakeups w =
     (case Header (blockchain s) (chain w) of
        None \<Rightarrow> (WatchPanic, w)
      | Some localLatest \<Rightarrow> WatchSync_loop s callback wakeups localLatest {} w)"

subsection \<open>Observations on a run\<close>

text \<open>The vocabulary of the statements below. \<open>nonzero\<close> keeps the blocks that the
  loop does not skip. \<open>applies bc c bs = Some c'\<close> says that, starting from the chain
  state \<open>c\<close>, every block of \<open>bs\<close> of non-zero height passes
  \<^verbatim>\<open>VerifyFinalizedBlock\<close> and \<^verbatim>\<open>WriteBlock\<close> in turn, and that \<open>c'\<close> is the chain state
  after the last commit. \<open>since w w'\<close> is what a run from \<open>w\<close> to \<open>w'\<close> appended to the
  trace; \<open>callbacks\<close>, \<open>verified\<close> and \<open>written\<close> project the calls of one kind out of
  a trace, in order.\<close>

definition nonzero :: "Block list \<Rightarrow> Block list" where
  "nonzero bs = filter (\<lambda>b. Block_Number b \<noteq> 0) bs"

fun applies :: "'c Blockchain \<Rightarrow> 'c \<Rightarrow> Block list \<Rightarrow> 'c option" where
  "applies bc c [] = Some c"
| "applies bc c (b # bs) =
     (if Block_Number b = 0 then applies bc c bs
      else case VerifyFinalizedBlock bc c b of
             Some err \<Rightarrow> None
           | None \<Rightarrow> (case WriteBlock bc c b of
                        (Some err, c') \<Rightarrow> None
                      | (None, c') \<Rightarrow> applies bc c' bs))"

definition since :: "('c, 'k) world \<Rightarrow> ('c, 'k) world \<Rightarrow> event list" where
  "since w w' = drop (length (trace w)) (trace w')"

definition callbacks :: "event list \<Rightarrow> (Block \<times> bool) list" where
  "callbacks tr = concat (map (\<lambda>e. case e of EvCallback b t \<Rightarrow> [(b, t)] | _ \<Rightarrow> []) tr)"

definition verified :: "event list \<Rightarrow> Block list" where
  "verified tr = concat (map (\<lambda>e. case e of EvVerifyFinalizedBlock b \<Rightarrow> [b] | _ \<Rightarrow> []) tr)"

definition written :: "event list \<Rightarrow> Block list" where
  "written tr = concat (map (\<lambda>e. case e of EvWriteBlock b \<Rightarrow> [b] | _ \<Rightarrow> []) tr)"

definition last_height :: "uint64 \<Rightarrow> Block list \<Rightarrow> uint64" where
  "last_height n bs = (if bs = [] then n else Block_Number (last bs))"

definition last_flag :: "bool \<Rightarrow> (Block \<times> bool) list \<Rightarrow> bool" where
  "last_flag t cs = (if cs = [] then t else snd (last cs))"

definition end_error :: "recv_end \<Rightarrow> error option" where
  "end_error e = (case e of ChClosed \<Rightarrow> None | TimerFired \<Rightarrow> Some errTimeout)"

text \<open>What the rounds of the \<^verbatim>\<open>select\<close> observe on a channel with the given arrivals
  under the timeout \<open>T\<close>: the blocks received in time, and how the last round ends.
  \<open>idle T arr e\<close> says that the next round ends with the timer: no block and no
  closing of the channel comes within \<open>T\<close>. \<open>step_world\<close> is the state after a pass of
  the watch loop.\<close>

fun select_outcomes :: "Duration \<Rightarrow> arrivals \<Rightarrow> chan_end \<Rightarrow> block_stream" where
  "select_outcomes T [] (ClosedAfter d) = ([], if d < T then ChClosed else TimerFired)"
| "select_outcomes T [] NeverClosed = ([], TimerFired)"
| "select_outcomes T ((d, block) # rest) e =
     (if T \<le> d then ([], TimerFired)
      else (block # fst (select_outcomes T rest e), snd (select_outcomes T rest e)))"

fun idle :: "Duration \<Rightarrow> arrivals \<Rightarrow> chan_end \<Rightarrow> bool" where
  "idle T [] (ClosedAfter d) = (T \<le> d)"
| "idle T [] NeverClosed = True"
| "idle T ((d, block) # rest) e = (T \<le> d)"

fun step_world :: "('c, 'k) watch_step \<Rightarrow> ('c, 'k) world" where
  "step_world (Continue l sk w) = w"
| "step_world (Break w) = w"
| "step_world (WPanicked w) = w"

text \<open>The heights \<open>L + 1, \<dots>, H\<close> in ascending order, and the contract of a chain store
  that a committed block becomes the head.\<close>

definition heights :: "uint64 \<Rightarrow> uint64 \<Rightarrow> uint64 list" where
  "heights L H = map (\<lambda>i. L + of_nat i) [1..<Suc (unat (H - L))]"

definition head_follows_commit :: "'c Blockchain \<Rightarrow> bool" where
  "head_follows_commit bc \<longleftrightarrow>
     (\<forall>c b c'. WriteBlock bc c b = (None, c') \<longrightarrow> Header bc c' = Some (Block_Number b))"

subsection \<open>A concrete instance\<close>

text \<open>A chain store, a callback and a peer client on which the theorems are
  instantiated. The chain state is the number of its head, \<open>None\<close> when the head is
  unknown. A block passes verification when it is the successor of the head; a block
  with the body \<open>0\<close> cannot be written. The callback asks for termination at a block
  with the body \<open>2\<close> and counts its calls. A peer serves its stream from the height it
  is asked for.\<close>

definition test_chain :: "uint64 option Blockchain" where
  "test_chain =
     \<lparr>Header = (\<lambda>c. c),
      VerifyFinalizedBlock = (\<lambda>c b.
        if Block_Number b = (case c of None \<Rightarrow> 0 | Some n \<Rightarrow> n) + 1 then None
        else Some (Err ''not the next block'')),
      WriteBlock = (\<lambda>c b.
        if Block_Body b = 0 then (Some (Err ''empty body''), c)
        else (None, Some (Block_Number b)))\<rparr>"

definition test_callback :: "(uint64 option, nat) callback" where
  "test_callback k b = (Block_Body b = 2, Suc k)"

definition test_syncer :: "(peer_ID \<times> block_stream) list \<Rightarrow> uint64 option syncer" where
  "test_syncer streams =
     \<lparr>blockchain = test_chain,
      GetBlocks = (\<lambda>p n d.
        case map_of streams p of
          None \<Rightarrow> Inl (Err ''no stream'')
        | Some (bs, e) \<Rightarrow> Inr (dropWhile (\<lambda>b. Block_Number b < n) bs, e)),
      blockTimeout = 10\<rparr>"

definition test_world :: "uint64 option \<Rightarrow> (uint64 option, nat) world" where
  "test_world c = \<lparr>chain = c, cbstate = 0, trace = []\<rparr>"

text \<open>A syncer over a chain store that accepts every block and makes it the head,
  with one stream for every peer.\<close>

definition lax_syncer :: "block_stream \<Rightarrow> uint64 option syncer" where
  "lax_syncer st =
     \<lparr>blockchain =
        \<lparr>Header = (\<lambda>c. c),
         VerifyFinalizedBlock = (\<lambda>c b. None),
         WriteBlock = (\<lambda>c b. (None, Some (Block_Number b)))\<rparr>,
      GetBlocks = (\<lambda>p n d. Inr st),
      blockTimeout = 10\<rparr>"

subsection \<open>Properties\<close>

lemma emit_simps:
  "trace (emit e w) = trace w @ [e]" "chain (emit e w) = chain w" "cbstate (emit e w) = cbstate w"
  by (simp_all add: emit_def)

lemma recvLoop_end: "recvLoop s cb [] e n t w = ((n, t, end_error e), w)"
  by (cases e) (simp_all add: end_error_def)

lemma recvLoop_zero:
  "Block_Number z = 0 \<Longrightarrow>
   recvLoop s cb (z # rest) e n t w = recvLoop s cb rest e n t w"
  by simp

lemma recvLoop_verify_fails:
  "Block_Number b \<noteq> 0 \<Longrightarrow> VerifyFinalizedBlock (blockchain s) (chain w) b = Some err \<Longrightarrow>
   recvLoop s cb (b # rest) e n t w =
     ((n, False, Some (UnableToVerifyBlock err)), emit (EvVerifyFinalizedBlock b) w)"
  by (simp add: emit_simps)

lemma recvLoop_write_fails:
  "Block_Number b \<noteq> 0 \<Longrightarrow> VerifyFinalizedBlock (blockchain s) (chain w) b = None \<Longrightarrow>
   WriteBlock (blockchain s) (chain w) b = (Some err, c') \<Longrightarrow>
   recvLoop s cb (b # rest) e n t w =
     ((n, False, Some (FailedToWriteBlock err)),
      emit (EvWriteBlock b) ((emit (EvVerifyFinalizedBlock b) w)\<lparr>chain := c'\<rparr>))"
  by (simp add: emit_simps)

lemma recvLoop_commits:
  "Block_Number b \<noteq> 0 \<Longrightarrow> VerifyFinalizedBlock (blockchain s) (chain w) b = None \<Longrightarrow>
   WriteBlock (blockchain s) (chain w) b = (None, c') \<Longrightarrow>
   cb (cbstate w) b = (t', k') \<Longrightarrow>
   recvLoop s cb (b # rest) e n t w =
     recvLoop s cb rest e (Block_Number b) t'
       (emit (EvCallback b t')
          ((emit (EvWriteBlock b) ((emit (EvVerifyFinalizedBlock b) w)\<lparr>chain := c'\<rparr>))
             \<lparr>cbstate := k'\<rparr>))"
  by (simp add: emit_simps emit_def)

lemma recvLoop_skip_zero:
  "Block_Number z = 0 \<Longrightarrow>
   recvLoop s cb (pre @ z # post) e n t w = recvLoop s cb (pre @ post) e n t w"
  by (induction pre arbitrary: n t w) (auto split: option.splits prod.splits simp: Let_def)

lemma recvLoop_blockchain_cong:
  "blockchain s' = blockchain s \<Longrightarrow> recvLoop s' cb bs e n t w = recvLoop s cb bs e n t w"
proof (induction bs arbitrary: n t w)
  case Nil
  then show ?case by (cases e) simp_all
next
  case (Cons b bs)
  then show ?case by (auto split: option.splits prod.splits simp: Let_def)
qed

declare recvLoop.simps(3) [simp del]

lemma block_cases:
  fixes s :: "'c syncer" and cb :: "('c, 'k) callback" and w :: "('c, 'k) world"
  obtains (zero) "Block_Number b = 0"
  | (verify_fails) err where "Block_Number b \<noteq> 0"
      "VerifyFinalizedBlock (blockchain s) (chain w) b = Some err"
  | (write_fails) err c' where "Block_Number b \<noteq> 0"
      "VerifyFinalizedBlock (blockchain s) (chain w) b = None"
      "WriteBlock (blockchain s) (chain w) b = (Some err, c')"
  | (commits) c' t' k' where "Block_Number b \<noteq> 0"
      "VerifyFinalizedBlock (blockchain s) (chain w) b = None"
      "WriteBlock (blockchain s) (chain w) b = (None, c')"
      "cb (cbstate w) b = (t', k')"
proof (cases "Block_Number b = 0")
  case True
  then show ?thesis by (rule zero)
next
  case nz: False
  show ?thesis
  proof (cases "VerifyFinalizedBlock (blockchain s) (chain w) b")
    case (Some err)
    with nz show ?thesis by (rule verify_fails)
  next
    case None
    obtain werr c' where wr: "WriteBlock (blockchain s) (chain w) b = (werr, c')"
      by (cases "WriteBlock (blockchain s) (chain w) b")
    obtain t' k' where c: "cb (cbstate w) b = (t', k')"
      by (cases "cb (cbstate w) b")
    show ?thesis
    proof (cases werr)
      case None': None
      with nz None wr c show ?thesis by (auto intro: commits)
    next
      case (Some err)
      with nz None wr show ?thesis by (auto intro: write_fails)
    qed
  qed
qed

lemma callbacks_simps:
  "callbacks [] = []"
  "callbacks (ev # es) = (case ev of EvCallback b t \<Rightarrow> [(b, t)] | _ \<Rightarrow> []) @ callbacks es"
  "callbacks (xs @ ys) = callbacks xs @ callbacks ys"
  by (simp_all add: callbacks_def)

lemma verified_simps:
  "verified [] = []"
  "verified (ev # es) = (case ev of EvVerifyFinalizedBlock b \<Rightarrow> [b] | _ \<Rightarrow> []) @ verified es"
  "verified (xs @ ys) = verified xs @ verified ys"
  by (simp_all add: verified_def)

lemma written_simps:
  "written [] = []"
  "written (ev # es) = (case ev of EvWriteBlock b \<Rightarrow> [b] | _ \<Rightarrow> []) @ written es"
  "written (xs @ ys) = written xs @ written ys"
  by (simp_all add: written_def)

lemmas obs_simps = callbacks_simps verified_simps written_simps

lemma last_height_Cons: "last_height n (b # bs) = last_height (Block_Number b) bs"
  by (simp add: last_height_def)

lemma last_flag_Cons: "last_flag t (c # cs) = last_flag (snd c) cs"
  by (simp add: last_flag_def)

text \<open>The shape of every result of the receive loop: the returned height is that of
  the last block handed to the callback, and the flag is the last callback result
  exactly when the loop ended with the stream.\<close>

lemma recvLoop_result:
  "recvLoop s cb bs e n t w = ((n', t', err), w') \<Longrightarrow>
   \<exists>evs. trace w' = trace w @ evs \<and>
         n' = last_height n (map fst (callbacks evs)) \<and>
         (if err = end_error e then t' = last_flag t (callbacks evs) else t' = False) \<and>
         (err = end_error e \<or> (\<exists>x. err = Some (UnableToVerifyBlock x)) \<or> (\<exists>x. err = Some (FailedToWriteBlock x)))"
proof (induction bs arbitrary: n t w)
  case Nil
  then show ?case by (auto simp: recvLoop_end last_height_def last_flag_def callbacks_simps)
next
  case (Cons b bs)
  show ?case
  proof (cases rule: block_cases[where b=b and s=s and w=w and cb=cb])
    case zero
    with Cons show ?thesis by (simp add: recvLoop_zero)
  next
    case (verify_fails x)
    with Cons.prems show ?thesis
      by (cases e) (auto simp: recvLoop_verify_fails emit_simps last_height_def last_flag_def callbacks_simps end_error_def)
  next
    case (write_fails x c')
    with Cons.prems show ?thesis
      by (cases e) (auto simp: recvLoop_write_fails emit_simps last_height_def last_flag_def callbacks_simps end_error_def)
  next
    case (commits c' tb k')
    let ?w3 = "emit (EvCallback b tb)
          ((emit (EvWriteBlock b) ((emit (EvVerifyFinalizedBlock b) w)\<lparr>chain := c'\<rparr>))
             \<lparr>cbstate := k'\<rparr>)"
    have "recvLoop s cb bs e (Block_Number b) tb ?w3 = ((n', t', err), w')"
      using Cons.prems unfolding recvLoop_commits[where cb=cb, OF commits] .
    from Cons.IH[OF this] obtain evs where
      evs: "trace w' = trace ?w3 @ evs"
        "n' = last_height (Block_Number b) (map fst (callbacks evs))"
        "if err = end_error e then t' = last_flag tb (callbacks evs) else t' = False"
        "err = end_error e \<or> (\<exists>x. err = Some (UnableToVerifyBlock x)) \<or> (\<exists>x. err = Some (FailedToWriteBlock x))"
      by blast
    let ?evs = "[EvVerifyFinalizedBlock b, EvWriteBlock b, EvCallback b tb] @ evs"
    have "trace w' = trace w @ ?evs" using evs(1) by (simp add: emit_simps emit_def)
    moreover have "n' = last_height n (map fst (callbacks ?evs))"
      using evs(2) by (simp add: callbacks_simps last_height_def)
    moreover have "if err = end_error e then t' = last_flag t (callbacks ?evs) else t' = False"
      using evs(3) by (simp add: callbacks_simps last_flag_def)
    ultimately show ?thesis using evs(4) by blast
  qed
qed

lemma recvLoop_append:
  "recvLoop s cb pre ChClosed n t w = ((n1, t1, None), w1) \<Longrightarrow>
   recvLoop s cb (pre @ post) e n t w = recvLoop s cb post e n1 t1 w1"
proof (induction pre arbitrary: n t w)
  case Nil
  then show ?case by simp
next
  case (Cons b bs)
  show ?case
  proof (cases rule: block_cases[where b=b and s=s and w=w and cb=cb])
    case zero
    with Cons show ?thesis by (simp add: recvLoop_zero)
  next
    case (verify_fails x)
    with Cons.prems show ?thesis by (simp add: recvLoop_verify_fails)
  next
    case (write_fails x c')
    with Cons.prems show ?thesis by (simp add: recvLoop_write_fails)
  next
    case (commits c' tb k')
    note step = recvLoop_commits[where cb=cb, OF commits]
    from Cons.prems show ?thesis
      unfolding append_Cons step by (rule Cons.IH)
  qed
qed

lemma recvLoop_applies:
  "applies (blockchain s) (chain w) bs = Some c \<Longrightarrow>
   \<exists>t' w' evs. recvLoop s cb bs e n t w = ((last_height n (nonzero bs), t', end_error e), w') \<and>
      chain w' = c \<and> trace w' = trace w @ evs \<and>
      verified evs = nonzero bs \<and> written evs = nonzero bs \<and>
      map fst (callbacks evs) = nonzero bs \<and> t' = last_flag t (callbacks evs)"
proof (induction bs arbitrary: n t w)
  case Nil
  then show ?case
    by (simp add: recvLoop_end nonzero_def last_height_def last_flag_def obs_simps)
next
  case (Cons b bs)
  show ?case
  proof (cases rule: block_cases[where b=b and s=s and w=w and cb=cb])
    case zero
    with Cons.prems have "applies (blockchain s) (chain w) bs = Some c" by simp
    from Cons.IH[OF this, of n t] zero show ?thesis by (simp add: nonzero_def recvLoop_zero)
  next
    case (verify_fails x)
    with Cons.prems show ?thesis by simp
  next
    case (write_fails x c')
    with Cons.prems show ?thesis by simp
  next
    case (commits c' tb k')
    let ?w3 = "emit (EvCallback b tb)
          ((emit (EvWriteBlock b) ((emit (EvVerifyFinalizedBlock b) w)\<lparr>chain := c'\<rparr>))
             \<lparr>cbstate := k'\<rparr>)"
    have ch: "chain ?w3 = c'" by (simp add: emit_def)
    from Cons.prems commits have "applies (blockchain s) (chain ?w3) bs = Some c"
      by (simp add: ch)
    from Cons.IH[OF this, of "Block_Number b" tb] obtain t' w' evs where
      r: "recvLoop s cb bs e (Block_Number b) tb ?w3 =
            ((last_height (Block_Number b) (nonzero bs), t', end_error e), w')"
      and facts: "chain w' = c" "trace w' = trace ?w3 @ evs" "verified evs = nonzero bs"
        "written evs = nonzero bs" "map fst (callbacks evs) = nonzero bs"
        "t' = last_flag tb (callbacks evs)"
      by blast
    let ?evs = "[EvVerifyFinalizedBlock b, EvWriteBlock b, EvCallback b tb] @ evs"
    have "recvLoop s cb (b # bs) e n t w = ((last_height n (nonzero (b # bs)), t', end_error e), w')"
      unfolding recvLoop_commits[where cb=cb, OF commits] r
      using commits(1) by (simp add: nonzero_def last_height_Cons)
    moreover have "trace w' = trace w @ ?evs" using facts(2) by (simp add: emit_def)
    moreover have "verified ?evs = nonzero (b # bs)" "written ?evs = nonzero (b # bs)"
      "map fst (callbacks ?evs) = nonzero (b # bs)"
      using facts commits(1) by (simp_all add: obs_simps nonzero_def)
    moreover have "t' = last_flag t (callbacks ?evs)"
      using facts(6) by (simp add: obs_simps last_flag_Cons)
    ultimately show ?thesis using facts(1) by blast
  qed
qed

lemma bulkSyncWithPeer_stream:
  "Header (blockchain s) (chain w) = Some L \<Longrightarrow>
   GetBlocks s p (L + 1) (blockTimeout s) = Inr (bs, e) \<Longrightarrow>
   recvLoop s cb bs e 0 False (emit (EvGetBlocks p (L + 1) (blockTimeout s)) w) = (r, w2) \<Longrightarrow>
   bulkSyncWithPeer s p cb w = (Returned r, emit (EvCloseStream p) w2)"
  by (simp add: bulkSyncWithPeer_def)

lemma since_append: "trace w' = trace w @ evs \<Longrightarrow> since w w' = evs"
  by (simp add: since_def)

lemmas test_defs = test_chain_def test_callback_def test_syncer_def test_world_def

subsection \<open>A block of height 0\<close>

lemma recvLoopT_refines:
  "recvLoopT s cb arr e n t w =
     recvLoop s cb (fst (select_outcomes (blockTimeout s) arr e))
       (snd (select_outcomes (blockTimeout s) arr e)) n t w"
proof (induction arr arbitrary: n t w)
  case Nil
  then show ?case by (cases e) simp_all
next
  case (Cons a arr)
  obtain d b where a: "a = (d, b)" by (cases a)
  show ?case
    unfolding a
    by (simp add: Cons.IH recvLoop.simps(3) Let_def split: option.splits prod.splits)
qed

lemma select_outcomes_in_time:
  "\<forall>(d, b)\<in>set pre. d < T \<Longrightarrow>
   select_outcomes T (pre @ post) e =
     (map snd pre @ fst (select_outcomes T post e), snd (select_outcomes T post e))"
  by (induction pre) (auto simp: not_le[symmetric])

lemma recvLoopT_skip_zero:
  assumes "Block_Number z = 0" "d < blockTimeout s"
  shows "recvLoopT s cb (pre @ (d, z) # post) e n t w = recvLoopT s cb (pre @ post) e n t w"
proof (induction pre arbitrary: n t w)
  case Nil
  from assms show ?case by simp
next
  case (Cons a pre)
  obtain d' b where a: "a = (d', b)" by (cases a)
  show ?case unfolding a
    by (simp add: Cons.IH Let_def split: option.splits prod.splits)
qed

lemma zero_height_block_untimed:
  assumes "Block_Number z = 0"
  shows "recvLoop s cb (z # rest) e n t w = recvLoop s cb rest e n t w \<and>
         bulkSyncWithPeer (s\<lparr>GetBlocks := \<lambda>p n d. Inr (pre @ z # post, e)\<rparr>) peerID cb w =
         bulkSyncWithPeer (s\<lparr>GetBlocks := \<lambda>p n d. Inr (pre @ post, e)\<rparr>) peerID cb w"
proof
  show "recvLoop s cb (z # rest) e n t w = recvLoop s cb rest e n t w"
    using assms by (rule recvLoop_zero)
next
  let ?s1 = "s\<lparr>GetBlocks := \<lambda>p n d. Inr (pre @ z # post, e)\<rparr>"
  let ?s2 = "s\<lparr>GetBlocks := \<lambda>p n d. Inr (pre @ post, e)\<rparr>"
  have "recvLoop ?s1 cb (pre @ z # post) e m t' w' = recvLoop ?s2 cb (pre @ post) e m t' w'"
    for m t' and w' :: "('a, 'b) world"
  proof -
    have "recvLoop ?s1 cb (pre @ z # post) e m t' w' = recvLoop s cb (pre @ z # post) e m t' w'"
      by (rule recvLoop_blockchain_cong) simp
    also have "\<dots> = recvLoop s cb (pre @ post) e m t' w'"
      using assms by (rule recvLoop_skip_zero)
    also have "\<dots> = recvLoop ?s2 cb (pre @ post) e m t' w'"
      by (rule recvLoop_blockchain_cong[symmetric]) simp
    finally show ?thesis .
  qed
  then show "bulkSyncWithPeer ?s1 peerID cb w = bulkSyncWithPeer ?s2 peerID cb w"
    by (simp add: bulkSyncWithPeer_def split: option.splits)
qed

text \<open>
  Claim C3, as amended. A block of height 0 that \<^verbatim>\<open>bulkSyncWithPeer\<close> receives is
  neither verified, nor committed, nor passed to the callback, and
  \<^verbatim>\<open>lastReceivedNumber\<close> and the flag stay as they were: the loop over a stream with
  such a block anywhere in it returns what the loop over the stream without it
  returns, in the same state. For the idle timeout it is a received block like any
  other: \<^verbatim>\<open>continue\<close> starts the next round of the \<^verbatim>\<open>select\<close>, which waits for the
  whole timeout again. So the time the block took to arrive is not charged to the
  block after it (first conjunct), and a block of height 0 that does not arrive
  within the timeout ends the loop with \<^verbatim>\<open>errTimeout\<close> like the absence of any block
  (second conjunct).
\<close>

theorem zero_height_block_only_rearms_timer:
  assumes "Block_Number z = 0"
  shows "(d < blockTimeout s \<longrightarrow>
            recvLoopT s cb ((d, z) # arr) ce n t w = recvLoopT s cb arr ce n t w \<and>
            recvLoopT s cb (before @ (d, z) # arr) ce n t w = recvLoopT s cb (before @ arr) ce n t w) \<and>
         (blockTimeout s \<le> d \<longrightarrow>
            recvLoopT s cb ((d, z) # arr) ce n t w = ((n, t, Some errTimeout), w)) \<and>
         recvLoop s cb (z # rest) e n t w = recvLoop s cb rest e n t w \<and>
         bulkSyncWithPeer (s\<lparr>GetBlocks := \<lambda>p n d. Inr (pre @ z # post, e)\<rparr>) peerID cb w =
         bulkSyncWithPeer (s\<lparr>GetBlocks := \<lambda>p n d. Inr (pre @ post, e)\<rparr>) peerID cb w"
  using assms recvLoopT_skip_zero[OF assms, of d s cb before arr ce n t w]
    zero_height_block_untimed[OF assms, of s cb rest e n t w pre post peerID]
  by simp

theorem zero_height_block_only_rearms_timer_witness:
  "Block_Number (Block 0 7) = 0 \<and> (6 :: Duration) < blockTimeout (test_syncer []) \<and>
   recvLoopT (test_syncer []) test_callback [(6, Block 0 7), (6, Block 1 7)] (ClosedAfter 1) 0 False
     (test_world (Some 0)) =
   recvLoopT (test_syncer []) test_callback [(6, Block 1 7)] (ClosedAfter 1) 0 False
     (test_world (Some 0)) \<and>
   recvLoopT (test_syncer []) test_callback [(6, Block 1 7)] (ClosedAfter 1) 0 False
     (test_world (Some 0)) =
   ((1, False, None),
    \<lparr>chain = Some 1, cbstate = 1,
     trace = [EvVerifyFinalizedBlock (Block 1 7), EvWriteBlock (Block 1 7),
              EvCallback (Block 1 7) False]\<rparr>)"
proof -
  have z: "Block_Number (Block 0 7) = 0" by simp
  have run: "recvLoopT (test_syncer []) test_callback [(6, Block 1 7)] (ClosedAfter 1) 0 False
     (test_world (Some 0)) =
   ((1, False, None),
    \<lparr>chain = Some 1, cbstate = 1,
     trace = [EvVerifyFinalizedBlock (Block 1 7), EvWriteBlock (Block 1 7),
              EvCallback (Block 1 7) False]\<rparr>)"
    by (simp add: test_defs emit_def)
  have t: "(6 :: Duration) < blockTimeout (test_syncer [])" by (simp add: test_defs)
  from zero_height_block_only_rearms_timer[OF z, of 6 "test_syncer []" test_callback
      "[(6, Block 1 7)]" "ClosedAfter 1" 0 False "test_world (Some 0)"] t
  have "recvLoopT (test_syncer []) test_callback [(6, Block 0 7), (6, Block 1 7)] (ClosedAfter 1) 0 False
     (test_world (Some 0)) =
   recvLoopT (test_syncer []) test_callback [(6, Block 1 7)] (ClosedAfter 1) 0 False
     (test_world (Some 0))"
    by blast
  with z t run show ?thesis by simp
qed

text \<open>
  The claim as stated (a block of height 0 does not reset the idle timeout) fails.
  The timeout is 10 and the block of height 1 arrives 12 after the loop began to
  wait. With a block of height 0 arriving at 6 the timer never fires and block 1 is
  applied; without it the loop returns \<^verbatim>\<open>errTimeout\<close> and applies nothing.
\<close>

theorem zero_height_block_resets_idle_timeout:
  "blockTimeout (test_syncer []) = 10 \<and>
   recvLoopT (test_syncer []) test_callback [(6, Block 0 7), (6, Block 1 7)] (ClosedAfter 1) 0 False
     (test_world (Some 0)) =
   ((1, False, None),
    \<lparr>chain = Some 1, cbstate = 1,
     trace = [EvVerifyFinalizedBlock (Block 1 7), EvWriteBlock (Block 1 7),
              EvCallback (Block 1 7) False]\<rparr>) \<and>
   recvLoopT (test_syncer []) test_callback [(12, Block 1 7)] (ClosedAfter 1) 0 False
     (test_world (Some 0)) =
   ((0, False, Some errTimeout), test_world (Some 0))"
  by (simp add: test_defs emit_def)

lemma bulkSyncWithPeer_applies:
  assumes hd: "Header (blockchain s) (chain w) = Some L"
      and gb: "GetBlocks s p (L + 1) (blockTimeout s) = Inr (bs, e)"
      and ap: "applies (blockchain s) (chain w) bs = Some c"
  shows "\<exists>t' w'. bulkSyncWithPeer s p cb w =
             (Returned (last_height 0 (nonzero bs), t', end_error e), w') \<and>
           chain w' = c \<and>
           verified (since w w') = nonzero bs \<and> written (since w w') = nonzero bs \<and>
           map fst (callbacks (since w w')) = nonzero bs \<and>
           t' = last_flag False (callbacks (since w w')) \<and>
           trace w' = trace w @ since w w'"
proof -
  let ?w1 = "emit (EvGetBlocks p (L + 1) (blockTimeout s)) w"
  from ap have "applies (blockchain s) (chain ?w1) bs = Some c" by (simp add: emit_simps)
  from recvLoop_applies[OF this, of cb e 0 False] obtain t' w2 evs where
    r: "recvLoop s cb bs e 0 False ?w1 = ((last_height 0 (nonzero bs), t', end_error e), w2)"
    and f: "chain w2 = c" "trace w2 = trace ?w1 @ evs" "verified evs = nonzero bs"
      "written evs = nonzero bs" "map fst (callbacks evs) = nonzero bs"
      "t' = last_flag False (callbacks evs)"
    by blast
  let ?w' = "emit (EvCloseStream p) w2"
  have run: "bulkSyncWithPeer s p cb w =
      (Returned (last_height 0 (nonzero bs), t', end_error e), ?w')"
    by (rule bulkSyncWithPeer_stream[OF hd gb r])
  have "trace ?w' = trace w @ (EvGetBlocks p (L + 1) (blockTimeout s) # evs @ [EvCloseStream p])"
    using f(2) by (simp add: emit_simps)
  then have si: "since w ?w' = EvGetBlocks p (L + 1) (blockTimeout s) # evs @ [EvCloseStream p]"
    by (rule since_append)
  have "verified (since w ?w') = nonzero bs" "written (since w ?w') = nonzero bs"
    "map fst (callbacks (since w ?w')) = nonzero bs"
    "t' = last_flag False (callbacks (since w ?w'))"
    unfolding si using f(3-6) by (simp_all add: obs_simps)
  moreover have "trace ?w' = trace w @ since w ?w'"
    unfolding si using f(2) by (simp add: emit_simps)
  moreover have "chain ?w' = c" using f(1) by (simp add: emit_simps)
  ultimately show ?thesis using run by blast
qed

lemma bulkSyncWithPeer_aborts:
  assumes hd: "Header (blockchain s) (chain w) = Some L"
      and gb: "GetBlocks s p (L + 1) (blockTimeout s) = Inr (pre @ b # rest, e)"
      and ap: "applies (blockchain s) (chain w) pre = Some c"
      and step: "\<And>n t w1. chain w1 = c \<Longrightarrow>
                   recvLoop s cb (b # rest) e n t w1 =
                     ((n, False, Some err), w1\<lparr>chain := c', trace := trace w1 @ new\<rparr>)"
  shows "\<exists>w'. bulkSyncWithPeer s p cb w =
             (Returned (last_height 0 (nonzero pre), False, Some err), w') \<and>
           chain w' = c' \<and>
           verified (since w w') = nonzero pre @ verified new \<and>
           written (since w w') = nonzero pre @ written new \<and>
           map fst (callbacks (since w w')) = nonzero pre @ map fst (callbacks new)"
proof -
  let ?w1 = "emit (EvGetBlocks p (L + 1) (blockTimeout s)) w"
  from ap have "applies (blockchain s) (chain ?w1) pre = Some c" by (simp add: emit_simps)
  from recvLoop_applies[OF this, of cb ChClosed 0 False] obtain t' w2 evs where
    r: "recvLoop s cb pre ChClosed 0 False ?w1 = ((last_height 0 (nonzero pre), t', None), w2)"
    and f: "chain w2 = c" "trace w2 = trace ?w1 @ evs" "verified evs = nonzero pre"
      "written evs = nonzero pre" "map fst (callbacks evs) = nonzero pre"
    by (auto simp: end_error_def)
  let ?w3 = "w2\<lparr>chain := c', trace := trace w2 @ new\<rparr>"
  have "recvLoop s cb (pre @ b # rest) e 0 False ?w1 =
          ((last_height 0 (nonzero pre), False, Some err), ?w3)"
    unfolding recvLoop_append[OF r] by (rule step[OF f(1)])
  from bulkSyncWithPeer_stream[OF hd gb this]
  have run: "bulkSyncWithPeer s p cb w =
      (Returned (last_height 0 (nonzero pre), False, Some err), emit (EvCloseStream p) ?w3)" .
  let ?w' = "emit (EvCloseStream p) ?w3"
  have "trace ?w' = trace w @ (EvGetBlocks p (L + 1) (blockTimeout s) # evs @ new @ [EvCloseStream p])"
    using f(2) by (simp add: emit_def)
  then have si: "since w ?w' = EvGetBlocks p (L + 1) (blockTimeout s) # evs @ new @ [EvCloseStream p]"
    by (rule since_append)
  have "verified (since w ?w') = nonzero pre @ verified new"
    "written (since w ?w') = nonzero pre @ written new"
    "map fst (callbacks (since w ?w')) = nonzero pre @ map fst (callbacks new)"
    unfolding si using f(3-5) by (simp_all add: obs_simps)
  moreover have "chain ?w' = c'" by (simp add: emit_def)
  ultimately show ?thesis using run by blast
qed

subsection \<open>A block that fails verification or the commit\<close>

text \<open>
  Claim C9. The stream is \<open>pre @ b # rest\<close>, the blocks of \<open>pre\<close> have been applied and
  left the chain in the state \<open>c\<close>, and \<open>b\<close> has a height above 0. If \<open>b\<close> fails
  \<^verbatim>\<open>VerifyFinalizedBlock\<close>, the pull returns the wrapped error; \<open>b\<close> is verified but
  never written, the chain is the state \<open>c\<close> that the earlier blocks produced (nothing
  is rolled back), and the returned height is that of the last block of \<open>pre\<close> that
  was applied (0 when there is none). If \<open>b\<close> passes verification and \<^verbatim>\<open>WriteBlock\<close>
  fails, the pull returns the wrapped error likewise, with the same height; the chain
  is what the failed \<^verbatim>\<open>WriteBlock\<close> left from \<open>c\<close>. In both cases the callback saw the
  blocks of \<open>pre\<close> only, and no block of \<open>rest\<close> is touched. The hypothesis on \<open>pre\<close>
  excludes no case: the loop reaches \<open>b\<close> only when no block before it made the loop
  return.
\<close>

theorem failure_aborts_without_rollback:
  assumes "Header (blockchain s) (chain w) = Some L"
      and "GetBlocks s p (L + 1) (blockTimeout s) = Inr (pre @ b # rest, e)"
      and "applies (blockchain s) (chain w) pre = Some c"
      and "Block_Number b \<noteq> 0"
  shows "(\<forall>x. VerifyFinalizedBlock (blockchain s) c b = Some x \<longrightarrow>
            (\<exists>w'. bulkSyncWithPeer s p cb w =
                     (Returned (last_height 0 (nonzero pre), False, Some (UnableToVerifyBlock x)), w') \<and>
                   chain w' = c \<and>
                   verified (since w w') = nonzero pre @ [b] \<and>
                   written (since w w') = nonzero pre \<and>
                   map fst (callbacks (since w w')) = nonzero pre)) \<and>
         (\<forall>x c'. VerifyFinalizedBlock (blockchain s) c b = None \<and>
                 WriteBlock (blockchain s) c b = (Some x, c') \<longrightarrow>
            (\<exists>w'. bulkSyncWithPeer s p cb w =
                     (Returned (last_height 0 (nonzero pre), False, Some (FailedToWriteBlock x)), w') \<and>
                   chain w' = c' \<and>
                   verified (since w w') = nonzero pre @ [b] \<and>
                   written (since w w') = nonzero pre @ [b] \<and>
                   map fst (callbacks (since w w')) = nonzero pre))"
proof (intro conjI allI impI)
  fix x
  assume v: "VerifyFinalizedBlock (blockchain s) c b = Some x"
  have "recvLoop s cb (b # rest) e n t w1 =
          ((n, False, Some (UnableToVerifyBlock x)),
           w1\<lparr>chain := c, trace := trace w1 @ [EvVerifyFinalizedBlock b]\<rparr>)"
    if "chain w1 = c" for n t and w1 :: "('a, 'b) world"
    using that assms(4) v by (simp add: recvLoop_verify_fails[where cb=cb] emit_def)
  from bulkSyncWithPeer_aborts[OF assms(1-3) this]
  show "\<exists>w'. bulkSyncWithPeer s p cb w =
                     (Returned (last_height 0 (nonzero pre), False, Some (UnableToVerifyBlock x)), w') \<and>
                   chain w' = c \<and>
                   verified (since w w') = nonzero pre @ [b] \<and>
                   written (since w w') = nonzero pre \<and>
                   map fst (callbacks (since w w')) = nonzero pre"
    by (simp add: obs_simps)
next
  fix x c'
  assume a: "VerifyFinalizedBlock (blockchain s) c b = None \<and>
             WriteBlock (blockchain s) c b = (Some x, c')"
  have "recvLoop s cb (b # rest) e n t w1 =
          ((n, False, Some (FailedToWriteBlock x)),
           w1\<lparr>chain := c', trace := trace w1 @ [EvVerifyFinalizedBlock b, EvWriteBlock b]\<rparr>)"
    if "chain w1 = c" for n t and w1 :: "('a, 'b) world"
    using that assms(4) a by (simp add: recvLoop_write_fails[where cb=cb] emit_def)
  from bulkSyncWithPeer_aborts[OF assms(1-3) this]
  show "\<exists>w'. bulkSyncWithPeer s p cb w =
                     (Returned (last_height 0 (nonzero pre), False, Some (FailedToWriteBlock x)), w') \<and>
                   chain w' = c' \<and>
                   verified (since w w') = nonzero pre @ [b] \<and>
                   written (since w w') = nonzero pre @ [b] \<and>
                   map fst (callbacks (since w w')) = nonzero pre"
    by (simp add: obs_simps)
qed

theorem failure_aborts_without_rollback_witness:
  "(\<exists>w'. bulkSyncWithPeer (test_syncer [(''a'', ([Block 1 1, Block 3 1, Block 4 1], ChClosed))])
            ''a'' test_callback (test_world (Some 0)) =
          (Returned (1, False, Some (UnableToVerifyBlock (Err ''not the next block''))), w') \<and>
        chain w' = Some 1 \<and>
        verified (since (test_world (Some 0)) w') = [Block 1 1, Block 3 1] \<and>
        written (since (test_world (Some 0)) w') = [Block 1 1] \<and>
        map fst (callbacks (since (test_world (Some 0)) w')) = [Block 1 1]) \<and>
   (\<exists>w'. bulkSyncWithPeer (test_syncer [(''a'', ([Block 1 1, Block 2 0, Block 3 1], ChClosed))])
            ''a'' test_callback (test_world (Some 0)) =
          (Returned (1, False, Some (FailedToWriteBlock (Err ''empty body''))), w') \<and>
        chain w' = Some 1 \<and>
        verified (since (test_world (Some 0)) w') = [Block 1 1, Block 2 0] \<and>
        written (since (test_world (Some 0)) w') = [Block 1 1, Block 2 0] \<and>
        map fst (callbacks (since (test_world (Some 0)) w')) = [Block 1 1])"
  using failure_aborts_without_rollback[of
      "test_syncer [(''a'', ([Block 1 1, Block 3 1, Block 4 1], ChClosed))]" "test_world (Some 0)" 0
      "''a''" "[Block 1 1]" "Block 3 1" "[Block 4 1]" ChClosed "Some 1" test_callback]
    failure_aborts_without_rollback[of
      "test_syncer [(''a'', ([Block 1 1, Block 2 0, Block 3 1], ChClosed))]" "test_world (Some 0)" 0
      "''a''" "[Block 1 1]" "Block 2 0" "[Block 3 1]" ChClosed "Some 1" test_callback]
  by (simp add: test_defs nonzero_def last_height_def)

subsection \<open>The idle timeout\<close>

lemma last_height_Max:
  "sorted (map Block_Number bs) \<Longrightarrow>
   last_height 0 bs = Max (insert 0 (set (map Block_Number bs)))"
proof (induction bs rule: rev_induct)
  case Nil
  then show ?case by (simp add: last_height_def)
next
  case (snoc b bs)
  from snoc.prems have "\<forall>x\<in>set (map Block_Number bs). x \<le> Block_Number b"
    by (simp add: sorted_append)
  then have "Max (insert 0 (set (map Block_Number (bs @ [b])))) = Block_Number b"
    by (intro Max_eqI) auto
  then show ?case by (simp add: last_height_def)
qed

lemma select_outcomes_idle:
  "idle T post e \<Longrightarrow> select_outcomes T post e = ([], TimerFired)"
  by (cases "(T, post, e)" rule: idle.cases) auto

text \<open>
  Claim C4, as amended. When the timer fires before a further block arrives and every
  block received before was applied, the loop returns \<^verbatim>\<open>errTimeout\<close> together with the
  height of the block it applied last in this call (0 when it applied none, in
  \<^verbatim>\<open>bulkSyncWithPeer\<close>); the blocks stay written. This height is the highest one
  applied when the applied heights are ascending. The first conjunct is the pull on
  a stream that ends with the timer; the second is the loop with its timer: the
  arrivals \<open>arr\<close> come in time, and then nothing comes within the timeout.
\<close>

theorem timeout_returns_last_applied:
  "(Header (blockchain s) (chain w) = Some L \<and>
    GetBlocks s p (L + 1) (blockTimeout s) = Inr (bs, TimerFired) \<and>
    applies (blockchain s) (chain w) bs = Some c \<longrightarrow>
      (\<exists>t' w'. bulkSyncWithPeer s p cb w =
                   (Returned (last_height 0 (nonzero bs), t', Some errTimeout), w') \<and>
                 chain w' = c \<and>
                 written (since w w') = nonzero bs \<and>
                 map fst (callbacks (since w w')) = nonzero bs \<and>
                 (sorted (map Block_Number (nonzero bs)) \<longrightarrow>
                    last_height 0 (nonzero bs) = Max (insert 0 (set (map Block_Number (nonzero bs))))))) \<and>
   ((\<forall>x\<in>set arr. fst x < blockTimeout s) \<and> idle (blockTimeout s) later ce \<and>
    applies (blockchain s) (chain w) (map snd arr) = Some c \<longrightarrow>
      (\<exists>t' w'. recvLoopT s cb (arr @ later) ce n t w =
                   ((last_height n (nonzero (map snd arr)), t', Some errTimeout), w') \<and>
                 chain w' = c))"
proof (intro conjI impI)
  assume a: "Header (blockchain s) (chain w) = Some L \<and>
    GetBlocks s p (L + 1) (blockTimeout s) = Inr (bs, TimerFired) \<and>
    applies (blockchain s) (chain w) bs = Some c"
  then have a1: "Header (blockchain s) (chain w) = Some L"
    and a2: "GetBlocks s p (L + 1) (blockTimeout s) = Inr (bs, TimerFired)"
    and a3: "applies (blockchain s) (chain w) bs = Some c" by simp_all
  from bulkSyncWithPeer_applies[OF a1 a2 a3, of cb] last_height_Max[of "nonzero bs"]
  show "\<exists>t' w'. bulkSyncWithPeer s p cb w =
                   (Returned (last_height 0 (nonzero bs), t', Some errTimeout), w') \<and>
                 chain w' = c \<and>
                 written (since w w') = nonzero bs \<and>
                 map fst (callbacks (since w w')) = nonzero bs \<and>
                 (sorted (map Block_Number (nonzero bs)) \<longrightarrow>
                    last_height 0 (nonzero bs) = Max (insert 0 (set (map Block_Number (nonzero bs)))))"
    by (auto simp: end_error_def)
next
  assume b: "(\<forall>x\<in>set arr. fst x < blockTimeout s) \<and> idle (blockTimeout s) later ce \<and>
    applies (blockchain s) (chain w) (map snd arr) = Some c"
  then have "\<forall>(d, b)\<in>set arr. d < blockTimeout s" by auto
  from select_outcomes_in_time[OF this, of later ce] b
  have so: "select_outcomes (blockTimeout s) (arr @ later) ce = (map snd arr, TimerFired)"
    by (simp add: select_outcomes_idle)
  from b have "applies (blockchain s) (chain w) (map snd arr) = Some c" by simp
  from recvLoop_applies[OF this, of cb TimerFired n t]
  show "\<exists>t' w'. recvLoopT s cb (arr @ later) ce n t w =
                   ((last_height n (nonzero (map snd arr)), t', Some errTimeout), w') \<and>
                 chain w' = c"
    unfolding recvLoopT_refines so by (auto simp: end_error_def)
qed

theorem timeout_returns_last_applied_witness:
  "(\<exists>t' w'. bulkSyncWithPeer (test_syncer [(''a'', ([Block 4 1, Block 5 1], TimerFired))])
            ''a'' test_callback (test_world (Some 3)) =
          (Returned (5, t', Some errTimeout), w') \<and>
        chain w' = Some 5 \<and>
        written (since (test_world (Some 3)) w') = [Block 4 1, Block 5 1] \<and>
        map fst (callbacks (since (test_world (Some 3)) w')) = [Block 4 1, Block 5 1] \<and>
        (5 :: uint64) = Max {0, 4, 5}) \<and>
   (\<exists>t' w'. recvLoopT (test_syncer []) test_callback
              ([(3, Block 4 1), (9, Block 5 1)] @ [(10, Block 6 1)]) NeverClosed 0 False
              (test_world (Some 3)) =
          ((5, t', Some errTimeout), w') \<and> chain w' = Some 5)"
  using timeout_returns_last_applied[where s="test_syncer [(''a'', ([Block 4 1, Block 5 1], TimerFired))]"
      and w="test_world (Some 3)" and L=3 and p="''a''" and bs="[Block 4 1, Block 5 1]"
      and c="Some 5" and cb=test_callback and arr="[]" and later="[]" and ce=NeverClosed, THEN conjunct1]
    timeout_returns_last_applied[where s="test_syncer []"
      and w="test_world (Some 3)" and c="Some 5" and cb=test_callback
      and arr="[(3, Block 4 1), (9, Block 5 1)]" and later="[(10, Block 6 1)]" and ce=NeverClosed
      and n=0 and t=False and bs="[]" and L=0 and p="''a''", THEN conjunct2]
  by (simp add: test_defs nonzero_def last_height_def)

text \<open>
  The claim as stated (the highest height applied is returned) fails: a store that
  accepts every block is sent the heights 5 and 2 before the stream falls idle; both
  are written, and the height returned is 2.
\<close>

theorem timeout_returns_last_not_highest:
  "bulkSyncWithPeer (lax_syncer ([Block 5 7, Block 2 7], TimerFired)) ''a'' test_callback
     (test_world (Some 0)) =
   (Returned (2, False, Some errTimeout),
    \<lparr>chain = Some 2, cbstate = 2,
     trace = [EvGetBlocks ''a'' 1 10,
              EvVerifyFinalizedBlock (Block 5 7), EvWriteBlock (Block 5 7), EvCallback (Block 5 7) False,
              EvVerifyFinalizedBlock (Block 2 7), EvWriteBlock (Block 2 7), EvCallback (Block 2 7) False,
              EvCloseStream ''a'']\<rparr>) \<and>
   Max (set (map Block_Number (written
             [EvGetBlocks ''a'' 1 10,
              EvVerifyFinalizedBlock (Block 5 7), EvWriteBlock (Block 5 7), EvCallback (Block 5 7) False,
              EvVerifyFinalizedBlock (Block 2 7), EvWriteBlock (Block 2 7), EvCallback (Block 2 7) False,
              EvCloseStream ''a'']))) = 5"
  by (simp add: bulkSyncWithPeer_def lax_syncer_def test_defs recvLoop.simps emit_def obs_simps)

subsection \<open>The should-terminate flag\<close>

text \<open>
  Claim C2, as amended. Whenever \<^verbatim>\<open>bulkSyncWithPeer\<close> returns: if it returns without
  error or with \<^verbatim>\<open>errTimeout\<close>, the flag is the result of the last call of the callback
  in this pull (false when the callback was not called); on any other error
  (verification, commit, opening of the stream) the flag is false. A terminate result
  does not stop the loop: on a stream whose blocks all verify and commit, every block
  of non-zero height is handed to the callback whatever the callback returned before,
  and the loop ends with the stream.
\<close>

theorem terminate_flag_on_return:
  assumes "bulkSyncWithPeer s p cb w = (Returned (n, flag, err), w')"
  shows "(err = None \<or> err = Some errTimeout \<longrightarrow>
            flag = last_flag False (callbacks (since w w'))) \<and>
         (err \<noteq> None \<and> err \<noteq> Some errTimeout \<longrightarrow> flag = False) \<and>
         (\<forall>L bs e c. Header (blockchain s) (chain w) = Some L \<and>
             GetBlocks s p (L + 1) (blockTimeout s) = Inr (bs, e) \<and>
             applies (blockchain s) (chain w) bs = Some c \<longrightarrow>
             map fst (callbacks (since w w')) = nonzero bs \<and> err = end_error e)"
proof -
  from assms obtain L where hd: "Header (blockchain s) (chain w) = Some L"
    by (auto simp: bulkSyncWithPeer_def split: option.splits)
  let ?w1 = "emit (EvGetBlocks p (L + 1) (blockTimeout s)) w"
  have flag: "(err = None \<or> err = Some errTimeout \<longrightarrow>
            flag = last_flag False (callbacks (since w w'))) \<and>
         (err \<noteq> None \<and> err \<noteq> Some errTimeout \<longrightarrow> flag = False)"
  proof (cases "GetBlocks s p (L + 1) (blockTimeout s)")
    case (Inl x)
    with assms hd have "flag = False" "since w w' = [EvGetBlocks p (L + 1) (blockTimeout s)]"
      by (auto simp: bulkSyncWithPeer_def since_def emit_def)
    then show ?thesis by (simp add: obs_simps last_flag_def)
  next
    case (Inr st)
    obtain bs e where st: "st = (bs, e)" by (cases st)
    obtain r w2 where r: "recvLoop s cb bs e 0 False ?w1 = (r, w2)"
      by (cases "recvLoop s cb bs e 0 False ?w1")
    from bulkSyncWithPeer_stream[OF hd Inr[unfolded st] r] assms
    have eq: "r = (n, flag, err)" "w' = emit (EvCloseStream p) w2" by simp_all
    from recvLoop_result[OF r[unfolded eq(1)]] obtain evs where
      evs: "trace w2 = trace ?w1 @ evs"
        "if err = end_error e then flag = last_flag False (callbacks evs) else flag = False"
        "err = end_error e \<or> (\<exists>x. err = Some (UnableToVerifyBlock x)) \<or>
           (\<exists>x. err = Some (FailedToWriteBlock x))"
      by blast
    have "trace w' = trace w @ (EvGetBlocks p (L + 1) (blockTimeout s) # evs @ [EvCloseStream p])"
      using evs(1) by (simp add: eq(2) emit_def)
    then have "since w w' = EvGetBlocks p (L + 1) (blockTimeout s) # evs @ [EvCloseStream p]"
      by (rule since_append)
    then have "callbacks (since w w') = callbacks evs" by (simp add: obs_simps)
    with evs(2,3) show ?thesis by (cases e) (auto simp: end_error_def)
  qed
  have "map fst (callbacks (since w w')) = nonzero bs \<and> err = end_error e"
    if "Header (blockchain s) (chain w) = Some L'"
      "GetBlocks s p (L' + 1) (blockTimeout s) = Inr (bs, e)"
      "applies (blockchain s) (chain w) bs = Some c" for L' bs e c
    using bulkSyncWithPeer_applies[OF that, of cb] assms by auto
  with flag show ?thesis by blast
qed

theorem terminate_flag_on_return_witness:
  "bulkSyncWithPeer (test_syncer [(''a'', ([Block 1 2, Block 2 1], ChClosed))])
       ''a'' test_callback (test_world (Some 0)) =
     (Returned (2, False, None),
      \<lparr>chain = Some 2, cbstate = 2,
       trace = [EvGetBlocks ''a'' 1 10,
                EvVerifyFinalizedBlock (Block 1 2), EvWriteBlock (Block 1 2), EvCallback (Block 1 2) True,
                EvVerifyFinalizedBlock (Block 2 1), EvWriteBlock (Block 2 1), EvCallback (Block 2 1) False,
                EvCloseStream ''a'']\<rparr>) \<and>
   last_flag False [(Block 1 2, True), (Block 2 1, False)] = False \<and>
   nonzero [Block 1 2, Block 2 1] = [Block 1 2, Block 2 1]"
proof -
  let ?s = "test_syncer [(''a'', ([Block 1 2, Block 2 1], ChClosed))]"
  let ?w' = "\<lparr>chain = Some (2 :: uint64), cbstate = 2 :: nat,
       trace = [EvGetBlocks ''a'' 1 10,
                EvVerifyFinalizedBlock (Block 1 2), EvWriteBlock (Block 1 2), EvCallback (Block 1 2) True,
                EvVerifyFinalizedBlock (Block 2 1), EvWriteBlock (Block 2 1), EvCallback (Block 2 1) False,
                EvCloseStream ''a'']\<rparr>"
  have run: "bulkSyncWithPeer ?s ''a'' test_callback (test_world (Some 0)) =
               (Returned (2, False, None), ?w')"
    by (simp add: bulkSyncWithPeer_def test_defs recvLoop.simps emit_def)
  from terminate_flag_on_return[OF run] show ?thesis
    using run by (simp add: test_defs since_def obs_simps nonzero_def last_flag_def)
qed

text \<open>
  The claim as stated (for every stream the flag is the last callback result) fails:
  the callback asks for termination at block 1, block 3 then fails verification, and
  the flag returned is false.
\<close>

theorem terminate_flag_dropped_on_failure:
  "bulkSyncWithPeer (test_syncer [(''a'', ([Block 1 2, Block 3 1], ChClosed))])
       ''a'' test_callback (test_world (Some 0)) =
     (Returned (1, False, Some (UnableToVerifyBlock (Err ''not the next block''))),
      \<lparr>chain = Some 1, cbstate = 1,
       trace = [EvGetBlocks ''a'' 1 10,
                EvVerifyFinalizedBlock (Block 1 2), EvWriteBlock (Block 1 2), EvCallback (Block 1 2) True,
                EvVerifyFinalizedBlock (Block 3 1),
                EvCloseStream ''a'']\<rparr>) \<and>
   last_flag False (callbacks
               [EvGetBlocks ''a'' 1 10,
                EvVerifyFinalizedBlock (Block 1 2), EvWriteBlock (Block 1 2), EvCallback (Block 1 2) True,
                EvVerifyFinalizedBlock (Block 3 1),
                EvCloseStream ''a'']) = True"
  by (simp add: bulkSyncWithPeer_def test_defs recvLoop.simps emit_def obs_simps last_flag_def)

subsection \<open>The best peer and the termination of the bulk loop\<close>

lemma better_cases:
  "better sk p best = best \<or> (better sk p best = Some p \<and> ID p \<notin> sk)"
  by (auto simp: better_def split: option.splits)

lemma fold_better_Some:
  "fold (better sk) m acc = Some b \<Longrightarrow> acc = Some b \<or> (b \<in> set m \<and> ID b \<notin> sk)"
proof (induction m arbitrary: acc)
  case Nil
  then show ?case by simp
next
  case (Cons p m)
  from Cons.prems have "fold (better sk) m (better sk p acc) = Some b" by simp
  from Cons.IH[OF this] better_cases[of sk p acc] show ?case by auto
qed

lemma fold_better_None:
  "fold (better sk) m acc = None \<longleftrightarrow> acc = None \<and> (\<forall>p\<in>set m. ID p \<in> sk)"
proof (induction m arbitrary: acc)
  case Nil
  then show ?case by simp
next
  case (Cons p m)
  then show ?case by (auto simp: better_def split: option.splits)
qed

lemma fold_better_ge:
  "fold (better sk) m acc = Some b \<Longrightarrow>
   (\<forall>a. acc = Some a \<longrightarrow> Number a \<le> Number b) \<and>
   (\<forall>p\<in>set m. ID p \<notin> sk \<longrightarrow> Number p \<le> Number b)"
proof (induction m arbitrary: acc)
  case Nil
  then show ?case by simp
next
  case (Cons p m)
  from Cons.prems have f: "fold (better sk) m (better sk p acc) = Some b" by simp
  from Cons.IH[OF f] show ?case
    by (auto simp: better_def split: option.splits if_splits)
qed

lemma BestPeer_Some:
  "BestPeer m sk = Some b \<Longrightarrow> b \<in> set m \<and> ID b \<notin> sk \<and> (\<forall>p\<in>set m. ID p \<notin> sk \<longrightarrow> Number p \<le> Number b)"
  using fold_better_Some[of sk m None b] fold_better_ge[of sk m None b]
  by (simp add: BestPeer_def)

lemma BestPeer_None: "BestPeer m sk = None \<longleftrightarrow> (\<forall>p\<in>set m. ID p \<in> sk)"
  by (simp add: BestPeer_def fold_better_None)

lemma BulkSync_body_TryNext:
  assumes "BulkSync_body s cb m l sk w = TryNext l' sk' w'"
  shows "\<exists>p\<in>set m. ID p \<notin> sk \<and> sk' = insert (ID p) sk"
proof -
  from assms obtain b where b: "BestPeer m sk = Some b" "sk' = insert (ID b) sk"
    by (auto simp: BulkSync_body_def Let_def split: option.splits if_splits prod.splits result.splits)
  with BestPeer_Some[OF b(1)] show ?thesis by blast
qed

lemma BulkSync_loop_terminates:
  "\<exists>r. BulkSync_loop s cb m l sk w = Some r"
proof (induction "length (filter (\<lambda>p. ID p \<notin> sk) m)" arbitrary: l sk w rule: less_induct)
  case less
  show ?case
  proof (cases "BulkSync_body s cb m l sk w")
    case (TryNext l' sk' w')
    from BulkSync_body_TryNext[OF this] obtain p where
      p: "p \<in> set m" "ID p \<notin> sk" "sk' = insert (ID p) sk" by blast
    have "filter (\<lambda>q. ID q \<notin> sk') m =
            filter (\<lambda>q. ID q \<noteq> ID p) (filter (\<lambda>q. ID q \<notin> sk) m)"
      unfolding p(3) by (auto intro: filter_cong)
    moreover have "length (filter (\<lambda>q. ID q \<noteq> ID p) (filter (\<lambda>q. ID q \<notin> sk) m))
                     < length (filter (\<lambda>q. ID q \<notin> sk) m)"
      using p(1,2) by (intro length_filter_less[of p]) auto
    ultimately have "length (filter (\<lambda>q. ID q \<notin> sk') m) < length (filter (\<lambda>q. ID q \<notin> sk) m)"
      by simp
    from less[OF this] obtain r where "BulkSync_loop s cb m l' sk' w' = Some r" by blast
    with TryNext show ?thesis by (subst BulkSync_loop.simps) simp
  qed (subst BulkSync_loop.simps, simp)+
qed

text \<open>
  Claim C8. For every peer table (a finite list of entries), every syncer, callback
  and initial state, \<^verbatim>\<open>BulkSync\<close> terminates: the model returns a result. Each pass of
  the loop that does not leave it adds the selected peer to the skip list, and that
  peer is an entry of the table that was not in the skip list before, so the skip
  list grows strictly. The exit \<open>NoCandidate\<close> is taken only when no entry outside the
  skip list advertises a height above the local head: the node has caught up with
  every peer left, or no peer is left. The other exits are \<open>FullySynced\<close> and the
  panic of claim C10.
\<close>

theorem BulkSync_terminates:
  "(\<exists>r w'. BulkSync s cb m w = Some (r, w')) \<and>
   (\<forall>l sk w0 l' sk' w1. BulkSync_body s cb m l sk w0 = TryNext l' sk' w1 \<longrightarrow>
      (\<exists>p\<in>set m. ID p \<notin> sk \<and> sk' = insert (ID p) sk) \<and> sk \<subset> sk') \<and>
   (\<forall>l sk w0 w1. BulkSync_body s cb m l sk w0 = NoCandidate w1 \<longrightarrow>
      (\<forall>p\<in>set m. ID p \<notin> sk \<longrightarrow> Number p \<le> l))"
proof -
  let ?l = "updateLocalLatest s (chain w) 0"
  let ?w0 = "emit (EvStartProgression (?l + 1)) (emit EvSubscribeEvents w)"
  from BulkSync_loop_terminates[of s cb m ?l "{}" ?w0] obtain x w1 where
    "BulkSync_loop s cb m ?l {} ?w0 = Some (x, w1)" by auto
  then have returns: "\<exists>r w'. BulkSync s cb m w = Some (r, w')"
    by (cases x) (simp_all add: BulkSync_def Let_def)
  have grows: "(\<exists>p\<in>set m. ID p \<notin> sk \<and> sk' = insert (ID p) sk) \<and> sk \<subset> sk'"
    if "BulkSync_body s cb m l sk w0 = TryNext l' sk' w1" for l sk l' sk' and w0 w1 :: "('a, 'b) world"
    using BulkSync_body_TryNext[OF that] by auto
  have exhausted: "Number p \<le> l"
    if nc: "BulkSync_body s cb m l sk w0 = NoCandidate w1" and p: "p \<in> set m" "ID p \<notin> sk"
    for l sk p and w0 w1 :: "('a, 'b) world"
  proof -
    from p have "BestPeer m sk \<noteq> None" by (auto simp: BestPeer_None)
    then obtain b where b: "BestPeer m sk = Some b" by auto
    with nc have "Number b \<le> l"
      by (auto simp: BulkSync_body_def Let_def split: if_splits prod.splits result.splits)
    with BestPeer_Some[OF b] p show "Number p \<le> l" by force
  qed
  from returns grows exhausted show ?thesis by blast
qed

theorem BulkSync_terminates_witness:
  "BulkSync (test_syncer [(''a'', ([Block 1 1, Block 2 1], TimerFired)),
                          (''b'', ([Block 1 1, Block 2 1, Block 3 1], ChClosed))])
     test_callback [\<lparr>ID = ''a'', Number = 3\<rparr>, \<lparr>ID = ''b'', Number = 3\<rparr>] (test_world (Some 0)) =
   Some (Returned None,
     \<lparr>chain = Some 3, cbstate = 3,
      trace = [EvSubscribeEvents, EvStartProgression 1,
               EvUpdateHighestProgression 3, EvGetBlocks ''a'' 1 10,
               EvVerifyFinalizedBlock (Block 1 1), EvWriteBlock (Block 1 1), EvCallback (Block 1 1) False,
               EvVerifyFinalizedBlock (Block 2 1), EvWriteBlock (Block 2 1), EvCallback (Block 2 1) False,
               EvCloseStream ''a'',
               EvUpdateHighestProgression 3, EvGetBlocks ''b'' 3 10,
               EvVerifyFinalizedBlock (Block 3 1), EvWriteBlock (Block 3 1), EvCallback (Block 3 1) False,
               EvCloseStream ''b'',
               EvStopProgression]\<rparr>) \<and>
   (\<exists>p\<in>set [\<lparr>ID = ''a'', Number = 3\<rparr>, \<lparr>ID = ''b'', Number = (3 :: uint64)\<rparr>].
      ID p \<notin> {} \<and> {''a''} = insert (ID p) {}) \<and>
   ({} :: peer_ID set) \<subset> {''a''}"
proof -
  let ?S = "test_syncer [(''a'', ([Block 1 1, Block 2 1], TimerFired)),
                         (''b'', ([Block 1 1, Block 2 1, Block 3 1], ChClosed))]"
  let ?M = "[\<lparr>ID = ''a'', Number = 3\<rparr>, \<lparr>ID = ''b'', Number = (3 :: uint64)\<rparr>]"
  let ?W0 = "\<lparr>chain = Some (0 :: uint64), cbstate = 0 :: nat,
      trace = [EvSubscribeEvents, EvStartProgression 1]\<rparr>"
  let ?W1 = "\<lparr>chain = Some (2 :: uint64), cbstate = 2 :: nat,
      trace = [EvSubscribeEvents, EvStartProgression 1,
               EvUpdateHighestProgression 3, EvGetBlocks ''a'' 1 10,
               EvVerifyFinalizedBlock (Block 1 1), EvWriteBlock (Block 1 1), EvCallback (Block 1 1) False,
               EvVerifyFinalizedBlock (Block 2 1), EvWriteBlock (Block 2 1), EvCallback (Block 2 1) False,
               EvCloseStream ''a'']\<rparr>"
  let ?W2 = "\<lparr>chain = Some (3 :: uint64), cbstate = 3 :: nat,
      trace = [EvSubscribeEvents, EvStartProgression 1,
               EvUpdateHighestProgression 3, EvGetBlocks ''a'' 1 10,
               EvVerifyFinalizedBlock (Block 1 1), EvWriteBlock (Block 1 1), EvCallback (Block 1 1) False,
               EvVerifyFinalizedBlock (Block 2 1), EvWriteBlock (Block 2 1), EvCallback (Block 2 1) False,
               EvCloseStream ''a'',
               EvUpdateHighestProgression 3, EvGetBlocks ''b'' 3 10,
               EvVerifyFinalizedBlock (Block 3 1), EvWriteBlock (Block 3 1), EvCallback (Block 3 1) False,
               EvCloseStream ''b'']\<rparr>"
  have b1: "BulkSync_body ?S test_callback ?M 0 {} ?W0 = TryNext 2 {''a''} ?W1"
    by (simp add: BulkSync_body_def BestPeer_def better_def updateLocalLatest_def
        bulkSyncWithPeer_def test_defs recvLoop.simps emit_def)
  have b2: "BulkSync_body ?S test_callback ?M 2 {''a''} ?W1 = FullySynced ?W2"
    by (simp add: BulkSync_body_def BestPeer_def better_def updateLocalLatest_def
        bulkSyncWithPeer_def test_defs recvLoop.simps emit_def)
  have "BulkSync_loop ?S test_callback ?M 2 {''a''} ?W1 = Some (ExitFullySynced, ?W2)"
    by (subst BulkSync_loop.simps) (simp only: b2 bulk_step.case)
  then have loop: "BulkSync_loop ?S test_callback ?M 0 {} ?W0 = Some (ExitFullySynced, ?W2)"
    by (subst BulkSync_loop.simps) (simp only: b1 bulk_step.case)
  have l0: "updateLocalLatest ?S (chain (test_world (Some 0))) 0 = 0"
    by (simp add: updateLocalLatest_def test_defs)
  have w0: "emit (EvStartProgression (0 + 1)) (emit EvSubscribeEvents (test_world (Some 0))) = ?W0"
    by (simp add: test_world_def emit_def)
  have run: "BulkSync ?S test_callback ?M (test_world (Some 0)) =
               Some (Returned None, emit EvStopProgression ?W2)"
    unfolding BulkSync_def l0 Let_def w0 loop by simp
  from BulkSync_terminates[of ?S test_callback ?M "test_world (Some 0)"] b1
  have "(\<exists>p\<in>set ?M. ID p \<notin> {} \<and> {''a''} = insert (ID p) {}) \<and> ({} :: peer_ID set) \<subset> {''a''}"
    by blast
  with run show ?thesis by (simp add: emit_def)
qed

subsection \<open>A single peer that streams every missing block\<close>

lemma unat_add_upto:
  fixes L H :: uint64
  assumes "L < H" "i \<le> unat (H - L)"
  shows "unat (L + of_nat i) = unat L + i"
proof -
  from assms(1) have "unat (H - L) = unat H - unat L"
    by (simp add: unat_sub word_le_less_eq)
  with assms have le: "unat L + i \<le> unat H"
    by (simp add: word_less_nat_alt)
  have "unat H < 2 ^ 64" using unsigned_less[of H] by simp
  with le have i: "i < 2 ^ 64" and s: "unat L + i < 2 ^ 64" by simp_all
  from i have "unat (of_nat i :: uint64) = i" by (simp add: unat_of_nat)
  with s show ?thesis by (simp add: unat_add_lem[THEN iffD1])
qed

lemma heights_nonzero:
  assumes "L < H"
  shows "0 \<notin> set (heights L H)"
proof
  assume "0 \<in> set (heights L H)"
  then obtain i where i: "1 \<le> i" "i \<le> unat (H - L)" "L + of_nat i = 0"
    by (auto simp: heights_def)
  from unat_add_upto[OF assms i(2)] i(1,3) show False by simp
qed

lemma heights_last:
  assumes "L < H"
  shows "heights L H \<noteq> [] \<and> last (heights L H) = H"
proof -
  from assms have "unat (H - L) \<noteq> 0"
    by (simp add: unat_eq_0)
  then have "[1..<Suc (unat (H - L))] = [1..<unat (H - L)] @ [unat (H - L)]"
    by simp
  then show ?thesis unfolding heights_def by simp
qed

lemma heights_ascending:
  assumes "L < H"
  shows "sorted_wrt (<) (heights L H)"
proof -
  have "sorted_wrt (\<lambda>i j. L + of_nat i < L + of_nat j) [1..<Suc (unat (H - L))]"
  proof (rule sorted_wrt_mono_rel[of _ "(<)"])
    fix i j
    assume "i \<in> set [1..<Suc (unat (H - L))]" "j \<in> set [1..<Suc (unat (H - L))]" "i < j"
    then have "i \<le> unat (H - L)" "j \<le> unat (H - L)" "i < j" by auto
    then show "L + of_nat i < L + of_nat j"
      using unat_add_upto[OF assms, of i] unat_add_upto[OF assms, of j]
      by (simp add: word_less_nat_alt)
  qed (rule sorted_wrt_upt)
  then show ?thesis by (simp add: heights_def sorted_wrt_map)
qed

lemma applies_head:
  assumes hc: "head_follows_commit bc"
  shows "applies bc c0 bs = Some c \<Longrightarrow> nonzero bs \<noteq> [] \<Longrightarrow>
         Header bc c = Some (Block_Number (last (nonzero bs)))"
proof (induction bs arbitrary: c0)
  case Nil
  then show ?case by (simp add: nonzero_def)
next
  case (Cons b bs)
  show ?case
  proof (cases "Block_Number b = 0")
    case True
    with Cons show ?thesis by (simp add: nonzero_def)
  next
    case False
    with Cons.prems(1) obtain c1 where
      w: "WriteBlock bc c0 b = (None, c1)" and rest: "applies bc c1 bs = Some c"
      by (auto split: option.splits prod.splits)
    show ?thesis
    proof (cases "nonzero bs = []")
      case True
      then have "filter (\<lambda>b. Block_Number b \<noteq> 0) bs = []" by (simp add: nonzero_def)
      then have "applies bc c1 bs = Some c1"
        by (induction bs) (auto split: if_splits)
      with rest have "c = c1" by simp
      with hc w True False show ?thesis by (simp add: nonzero_def head_follows_commit_def)
    next
      case ne: False
      from Cons.IH[OF rest ne] ne False show ?thesis by (simp add: nonzero_def)
    qed
  qed
qed

text \<open>
  Claim C1. The local head is \<open>L\<close>, the peer table holds one peer that advertises
  \<open>H > L\<close>, the stream opened at \<open>L + 1\<close> delivers blocks of the heights
  \<open>L + 1, \<dots>, H\<close> in this order and is then closed, every block passes
  \<^verbatim>\<open>VerifyFinalizedBlock\<close> and \<^verbatim>\<open>WriteBlock\<close> when its turn comes, and the chain store
  makes a committed block its head. Then \<^verbatim>\<open>BulkSync\<close> returns nil, the local head is
  \<open>H\<close>, the callback has been called with exactly the streamed blocks in their order
  (\<open>H - L\<close> calls, of strictly ascending height), and the loop was left in its first
  pass through the \<^verbatim>\<open>break\<close> that follows a pull without error that reached the
  advertised height.
\<close>

theorem BulkSync_single_peer:
  assumes hd: "Header (blockchain s) (chain w) = Some L"
      and lt: "L < H"
      and gb: "GetBlocks s p (L + 1) (blockTimeout s) = Inr (blocks, ChClosed)"
      and nums: "map Block_Number blocks = heights L H"
      and ap: "applies (blockchain s) (chain w) blocks \<noteq> None"
      and hc: "head_follows_commit (blockchain s)"
  shows "\<exists>w1 w'.
           BulkSync_loop s cb [\<lparr>ID = p, Number = H\<rparr>] L {}
             (emit (EvStartProgression (L + 1)) (emit EvSubscribeEvents w)) = Some (ExitFullySynced, w1) \<and>
           BulkSync s cb [\<lparr>ID = p, Number = H\<rparr>] w = Some (Returned None, w') \<and>
           Header (blockchain s) (chain w') = Some H \<and>
           map fst (callbacks (since w w')) = blocks \<and>
           length (callbacks (since w w')) = unat (H - L) \<and>
           sorted_wrt (<) (map (\<lambda>x. Block_Number (fst x)) (callbacks (since w w')))"
proof -
  let ?peer = "\<lparr>ID = p, Number = H\<rparr>"
  let ?w0 = "emit (EvStartProgression (L + 1)) (emit EvSubscribeEvents w)"
  let ?w1 = "emit (EvUpdateHighestProgression H) ?w0"
  from ap obtain c where c: "applies (blockchain s) (chain w) blocks = Some c" by auto
  have nz: "nonzero blocks = blocks"
  proof -
    have "\<forall>b\<in>set blocks. Block_Number b \<noteq> 0"
      using heights_nonzero[OF lt] nums[symmetric] by auto
    then show ?thesis by (simp add: nonzero_def)
  qed
  have ne: "blocks \<noteq> []" using heights_last[OF lt] nums[symmetric] by auto
  have lastH: "last_height 0 blocks = H"
    using heights_last[OF lt] ne nums[symmetric] by (simp add: last_height_def last_map)
  have hd1: "Header (blockchain s) (chain ?w1) = Some L" using hd by (simp add: emit_simps)
  have ap1: "applies (blockchain s) (chain ?w1) blocks = Some c" using c by (simp add: emit_simps)
  from bulkSyncWithPeer_applies[OF hd1 gb ap1, of cb] obtain t' w2 where
    pull: "bulkSyncWithPeer s p cb ?w1 = (Returned (H, t', None), w2)"
    and f: "chain w2 = c" "map fst (callbacks (since ?w1 w2)) = blocks"
      "trace w2 = trace ?w1 @ since ?w1 w2"
    by (auto simp: nz lastH end_error_def)
  have best: "BestPeer [?peer] {} = Some ?peer" by (simp add: BestPeer_def better_def)
  from lt have nle: "\<not> H \<le> L" by simp
  have body: "BulkSync_body s cb [?peer] L {} ?w0 = FullySynced w2"
    by (simp add: BulkSync_body_def best pull nle)
  then have loop: "BulkSync_loop s cb [?peer] L {} ?w0 = Some (ExitFullySynced, w2)"
    by (subst BulkSync_loop.simps) simp
  let ?w' = "emit EvStopProgression w2"
  have l0: "updateLocalLatest s (chain w) 0 = L" using hd by (simp add: updateLocalLatest_def)
  have run: "BulkSync s cb [?peer] w = Some (Returned None, ?w')"
    unfolding BulkSync_def l0 Let_def loop by simp
  have "Header (blockchain s) c = Some (Block_Number (last blocks))"
    using applies_head[OF hc c] nz ne by simp
  then have head: "Header (blockchain s) (chain ?w') = Some H"
    using lastH ne f(1) by (simp add: emit_simps last_height_def)
  have "trace ?w' = trace w @ ([EvSubscribeEvents, EvStartProgression (L + 1),
           EvUpdateHighestProgression H] @ since ?w1 w2 @ [EvStopProgression])"
    using f(3) by (simp add: emit_simps)
  then have "since w ?w' = [EvSubscribeEvents, EvStartProgression (L + 1),
           EvUpdateHighestProgression H] @ since ?w1 w2 @ [EvStopProgression]"
    by (rule since_append)
  then have cbs: "callbacks (since w ?w') = callbacks (since ?w1 w2)"
    by (simp add: obs_simps)
  have m: "map fst (callbacks (since w ?w')) = blocks" using f(2) cbs by simp
  have "length (callbacks (since w ?w')) = length blocks"
    using arg_cong[OF m, of length] by simp
  also have "\<dots> = unat (H - L)"
    using arg_cong[OF nums, of length] by (simp add: heights_def)
  finally have len: "length (callbacks (since w ?w')) = unat (H - L)" .
  have "map (\<lambda>x. Block_Number (fst x)) (callbacks (since w ?w')) = map Block_Number blocks"
    using arg_cong[OF m, of "map Block_Number"] by (simp add: comp_def)
  then have asc: "sorted_wrt (<) (map (\<lambda>x. Block_Number (fst x)) (callbacks (since w ?w')))"
    using heights_ascending[OF lt] nums by simp
  from loop run head m len asc show ?thesis by blast
qed

lemma heights_2_5: "heights 2 5 = [3, 4, 5]"
  by (simp add: heights_def upt_rec)

theorem BulkSync_single_peer_witness:
  "Header (blockchain (test_syncer [(''a'', ([Block 3 7, Block 4 7, Block 5 7], ChClosed))]))
      (chain (test_world (Some 2))) = Some 2 \<and>
   map Block_Number [Block 3 7, Block 4 7, Block 5 7] = heights 2 5 \<and>
   head_follows_commit test_chain \<and>
   (\<exists>w1 w'.
      BulkSync_loop (test_syncer [(''a'', ([Block 3 7, Block 4 7, Block 5 7], ChClosed))]) test_callback
        [\<lparr>ID = ''a'', Number = 5\<rparr>] 2 {}
        (emit (EvStartProgression (2 + 1)) (emit EvSubscribeEvents (test_world (Some 2)))) =
        Some (ExitFullySynced, w1) \<and>
      BulkSync (test_syncer [(''a'', ([Block 3 7, Block 4 7, Block 5 7], ChClosed))]) test_callback
        [\<lparr>ID = ''a'', Number = 5\<rparr>] (test_world (Some 2)) = Some (Returned None, w') \<and>
      Header test_chain (chain w') = Some 5 \<and>
      map fst (callbacks (since (test_world (Some 2)) w')) = [Block 3 7, Block 4 7, Block 5 7] \<and>
      length (callbacks (since (test_world (Some 2)) w')) = 3 \<and>
      sorted_wrt (<) (map (\<lambda>x. Block_Number (fst x)) (callbacks (since (test_world (Some 2)) w'))))"
proof -
  let ?s = "test_syncer [(''a'', ([Block 3 7, Block 4 7, Block 5 7], ChClosed))]"
  have h1: "Header (blockchain ?s) (chain (test_world (Some 2))) = Some 2"
    by (simp add: test_defs)
  have h2: "(2 :: uint64) < 5" by simp
  have h3: "GetBlocks ?s ''a'' (2 + 1) (blockTimeout ?s) = Inr ([Block 3 7, Block 4 7, Block 5 7], ChClosed)"
    by (simp add: test_defs)
  have h4: "map Block_Number [Block 3 7, Block 4 7, Block 5 7] = heights 2 5"
    by (simp add: heights_2_5)
  have h5: "applies (blockchain ?s) (chain (test_world (Some 2))) [Block 3 7, Block 4 7, Block 5 7] \<noteq> None"
    by (simp add: test_defs)
  have h6: "head_follows_commit (blockchain ?s)"
    by (auto simp: head_follows_commit_def test_defs split: if_splits)
  from BulkSync_single_peer[OF h1 h2 h3 h4 h5 h6, of test_callback] h1 h4 h6
  show ?thesis by (simp add: test_syncer_def)
qed

subsection \<open>The watch loop\<close>

lemma WatchSync_body_Break:
  "WatchSync_body s cb m l sk w = Break w' \<longleftrightarrow>
     (\<exists>best n. BestPeer m sk = Some best \<and> updateLocalLatest s (chain w) l < Number best \<and>
        bulkSyncWithPeer s (ID best) cb w = (Returned (n, True, None), w') \<and> Number best \<le> n)"
  by (auto simp: WatchSync_body_def Let_def not_le not_less
      split: option.splits if_splits prod.splits result.splits)

lemma WatchSync_body_skip:
  assumes "BestPeer m sk = Some best" "updateLocalLatest s (chain w) l < Number best"
    "bulkSyncWithPeer s (ID best) cb w = (Returned (n, t, err), w2)"
    "err \<noteq> None \<or> n < Number best"
  shows "WatchSync_body s cb m l sk w =
           Continue (updateLocalLatest s (chain w) l) (insert (ID best) sk) w2"
  using assms by (auto simp: WatchSync_body_def Let_def not_le)

lemma WatchSync_loop_Returned:
  "WatchSync_loop s cb wakeups l sk w = (WatchReturned r, w') \<Longrightarrow>
   r = None \<and> (\<exists>m l' sk' w0. m \<in> set wakeups \<and> WatchSync_body s cb m l' sk' w0 = Break w')"
proof (induction wakeups arbitrary: l sk w)
  case Nil
  then show ?case by simp
next
  case (Cons m wakeups)
  show ?case
  proof (cases "WatchSync_body s cb m l sk w")
    case (Continue l1 sk1 w1)
    with Cons.prems have "WatchSync_loop s cb wakeups l1 sk1 w1 = (WatchReturned r, w')" by simp
    from Cons.IH[OF this] show ?thesis by auto
  next
    case (Break w1)
    with Cons.prems have "r = None" "w1 = w'" by simp_all
    with Break show ?thesis by auto
  next
    case (WPanicked w1)
    with Cons.prems show ?thesis by simp
  qed
qed

text \<open>
  Claim C6. In a pass of the loop of \<^verbatim>\<open>WatchSync\<close> with a candidate above the local head:
  if the pull returned an error, or a last height below the height the candidate
  advertises, the pass ends in \<open>Continue\<close> (back to the receive on \<^verbatim>\<open>newStatusCh\<close>) with
  the candidate added to the skip list. The pass leaves the loop exactly when the pull
  returned no error, a last height that is not below the advertised one, and the flag
  true. \<^verbatim>\<open>WatchSync\<close> returns only in this way, and what it returns is nil.
\<close>

theorem WatchSync_skips_or_terminates:
  "(\<forall>best n t err w2.
      BestPeer m sk = Some best \<and> updateLocalLatest s (chain w) l < Number best \<and>
      bulkSyncWithPeer s (ID best) cb w = (Returned (n, t, err), w2) \<and>
      (err \<noteq> None \<or> n < Number best) \<longrightarrow>
      WatchSync_body s cb m l sk w =
        Continue (updateLocalLatest s (chain w) l) (insert (ID best) sk) w2) \<and>
   (\<forall>w'. WatchSync_body s cb m l sk w = Break w' \<longleftrightarrow>
      (\<exists>best n. BestPeer m sk = Some best \<and> updateLocalLatest s (chain w) l < Number best \<and>
         bulkSyncWithPeer s (ID best) cb w = (Returned (n, True, None), w') \<and> Number best \<le> n)) \<and>
   (\<forall>wakeups r w'. WatchSync s cb wakeups w = (WatchReturned r, w') \<longrightarrow>
      r = None \<and> (\<exists>m' l' sk' w0. m' \<in> set wakeups \<and> WatchSync_body s cb m' l' sk' w0 = Break w'))"
proof (intro conjI allI impI)
  fix best n t err w2
  assume "BestPeer m sk = Some best \<and> updateLocalLatest s (chain w) l < Number best \<and>
      bulkSyncWithPeer s (ID best) cb w = (Returned (n, t, err), w2) \<and>
      (err \<noteq> None \<or> n < Number best)"
  then show "WatchSync_body s cb m l sk w =
        Continue (updateLocalLatest s (chain w) l) (insert (ID best) sk) w2"
    using WatchSync_body_skip by blast
next
  fix w'
  show "WatchSync_body s cb m l sk w = Break w' \<longleftrightarrow>
      (\<exists>best n. BestPeer m sk = Some best \<and> updateLocalLatest s (chain w) l < Number best \<and>
         bulkSyncWithPeer s (ID best) cb w = (Returned (n, True, None), w') \<and> Number best \<le> n)"
    by (rule WatchSync_body_Break)
next
  fix wakeups r w'
  assume a: "WatchSync s cb wakeups w = (WatchReturned r, w')"
  then obtain l0 where "WatchSync_loop s cb wakeups l0 {} w = (WatchReturned r, w')"
    by (auto simp: WatchSync_def split: option.splits)
  from WatchSync_loop_Returned[OF this]
  show "r = None" "\<exists>m' l' sk' w0. m' \<in> set wakeups \<and> WatchSync_body s cb m' l' sk' w0 = Break w'"
    by auto
qed

theorem WatchSync_skips_or_terminates_witness:
  "WatchSync_body
     (test_syncer [(''a'', ([Block 1 7, Block 2 7], ChClosed)),
                   (''b'', ([Block 1 7, Block 2 7, Block 3 2], ChClosed))])
     test_callback [\<lparr>ID = ''a'', Number = 3\<rparr>] 0 {} (test_world (Some 0)) =
   Continue 0 {''a''}
     \<lparr>chain = Some 2, cbstate = 2,
      trace = [EvGetBlocks ''a'' 1 10,
               EvVerifyFinalizedBlock (Block 1 7), EvWriteBlock (Block 1 7), EvCallback (Block 1 7) False,
               EvVerifyFinalizedBlock (Block 2 7), EvWriteBlock (Block 2 7), EvCallback (Block 2 7) False,
               EvCloseStream ''a'']\<rparr> \<and>
   WatchSync
     (test_syncer [(''a'', ([Block 1 7, Block 2 7], ChClosed)),
                   (''b'', ([Block 1 7, Block 2 7, Block 3 2], ChClosed))])
     test_callback [[\<lparr>ID = ''a'', Number = 3\<rparr>], [\<lparr>ID = ''a'', Number = 3\<rparr>, \<lparr>ID = ''b'', Number = 3\<rparr>]]
     (test_world (Some 0)) =
   (WatchReturned None,
     \<lparr>chain = Some 3, cbstate = 3,
      trace = [EvGetBlocks ''a'' 1 10,
               EvVerifyFinalizedBlock (Block 1 7), EvWriteBlock (Block 1 7), EvCallback (Block 1 7) False,
               EvVerifyFinalizedBlock (Block 2 7), EvWriteBlock (Block 2 7), EvCallback (Block 2 7) False,
               EvCloseStream ''a'',
               EvGetBlocks ''b'' 3 10,
               EvVerifyFinalizedBlock (Block 3 2), EvWriteBlock (Block 3 2), EvCallback (Block 3 2) True,
               EvCloseStream ''b'']\<rparr>)"
proof -
  let ?S = "test_syncer [(''a'', ([Block 1 7, Block 2 7], ChClosed)),
                         (''b'', ([Block 1 7, Block 2 7, Block 3 2], ChClosed))]"
  let ?M1 = "[\<lparr>ID = ''a'', Number = (3 :: uint64)\<rparr>]"
  let ?M2 = "[\<lparr>ID = ''a'', Number = 3\<rparr>, \<lparr>ID = ''b'', Number = (3 :: uint64)\<rparr>]"
  let ?W1 = "\<lparr>chain = Some (2 :: uint64), cbstate = 2 :: nat,
      trace = [EvGetBlocks ''a'' 1 10,
               EvVerifyFinalizedBlock (Block 1 7), EvWriteBlock (Block 1 7), EvCallback (Block 1 7) False,
               EvVerifyFinalizedBlock (Block 2 7), EvWriteBlock (Block 2 7), EvCallback (Block 2 7) False,
               EvCloseStream ''a'']\<rparr>"
  let ?W2 = "\<lparr>chain = Some (3 :: uint64), cbstate = 3 :: nat,
      trace = [EvGetBlocks ''a'' 1 10,
               EvVerifyFinalizedBlock (Block 1 7), EvWriteBlock (Block 1 7), EvCallback (Block 1 7) False,
               EvVerifyFinalizedBlock (Block 2 7), EvWriteBlock (Block 2 7), EvCallback (Block 2 7) False,
               EvCloseStream ''a'',
               EvGetBlocks ''b'' 3 10,
               EvVerifyFinalizedBlock (Block 3 2), EvWriteBlock (Block 3 2), EvCallback (Block 3 2) True,
               EvCloseStream ''b'']\<rparr>"
  have best1: "BestPeer ?M1 {} = Some \<lparr>ID = ''a'', Number = 3\<rparr>"
    by (simp add: BestPeer_def better_def)
  have l1: "updateLocalLatest ?S (chain (test_world (Some 0))) 0 = 0"
    by (simp add: updateLocalLatest_def test_defs)
  have pull1: "bulkSyncWithPeer ?S ''a'' test_callback (test_world (Some 0)) =
                 (Returned (2, False, None), ?W1)"
    by (simp add: bulkSyncWithPeer_def test_defs recvLoop.simps emit_def)
  have b1: "WatchSync_body ?S test_callback ?M1 0 {} (test_world (Some 0)) = Continue 0 {''a''} ?W1"
  proof -
    have "BestPeer ?M1 {} = Some \<lparr>ID = ''a'', Number = 3\<rparr> \<and>
          updateLocalLatest ?S (chain (test_world (Some 0))) 0 < Number \<lparr>ID = ''a'', Number = 3\<rparr> \<and>
          bulkSyncWithPeer ?S (ID \<lparr>ID = ''a'', Number = 3\<rparr>) test_callback (test_world (Some 0)) =
            (Returned (2, False, None), ?W1) \<and>
          (None \<noteq> (None :: error option) \<or> (2 :: uint64) < Number \<lparr>ID = ''a'', Number = 3\<rparr>)"
      by (simp add: best1 l1 pull1)
    from WatchSync_skips_or_terminates[of ?M1 "{}" ?S "test_world (Some 0)" 0 test_callback,
          THEN conjunct1, rule_format, OF this]
    show ?thesis by (simp add: l1)
  qed
  have best2: "BestPeer ?M2 {''a''} = Some \<lparr>ID = ''b'', Number = 3\<rparr>"
    by (simp add: BestPeer_def better_def)
  have l2: "updateLocalLatest ?S (chain ?W1) 0 = 2"
    by (simp add: updateLocalLatest_def test_defs)
  have pull2: "bulkSyncWithPeer ?S ''b'' test_callback ?W1 = (Returned (3, True, None), ?W2)"
    by (simp add: bulkSyncWithPeer_def test_defs recvLoop.simps emit_def)
  have b2: "WatchSync_body ?S test_callback ?M2 0 {''a''} ?W1 = Break ?W2"
    unfolding WatchSync_body_def l2 Let_def best2 by (simp add: pull2)
  have hd: "Header (blockchain ?S) (chain (test_world (Some 0))) = Some 0"
    by (simp add: test_defs)
  have "WatchSync ?S test_callback [?M1, ?M2] (test_world (Some 0)) = (WatchReturned None, ?W2)"
    unfolding WatchSync_def hd by (simp add: b1 b2)
  with b1 show ?thesis by simp
qed

lemma bulkSyncWithPeer_trace_known:
  assumes hd: "Header (blockchain s) (chain w) = Some L"
      and run: "bulkSyncWithPeer s p cb w = (r, w')"
  shows "r \<noteq> Panic \<and> (\<exists>evs. trace w' = trace w @ EvGetBlocks p (L + 1) (blockTimeout s) # evs)"
proof (cases "GetBlocks s p (L + 1) (blockTimeout s)")
  case (Inl x)
  with hd run show ?thesis by (auto simp: bulkSyncWithPeer_def emit_def)
next
  case (Inr st)
  obtain bs e where st: "st = (bs, e)" by (cases st)
  let ?w1 = "emit (EvGetBlocks p (L + 1) (blockTimeout s)) w"
  obtain n t err w2 where r: "recvLoop s cb bs e 0 False ?w1 = ((n, t, err), w2)"
    by (metis prod_cases3 surj_pair)
  from recvLoop_result[OF r] obtain evs where evs: "trace w2 = trace ?w1 @ evs" by blast
  from bulkSyncWithPeer_stream[OF hd Inr[unfolded st] r] run
  have "r = Returned (n, t, err)" "w' = emit (EvCloseStream p) w2" by simp_all
  with evs show ?thesis by (simp add: emit_def)
qed

lemma bulkSyncWithPeer_trace:
  "bulkSyncWithPeer s p cb w = (r, w') \<Longrightarrow> \<exists>evs. trace w' = trace w @ evs"
proof (cases "Header (blockchain s) (chain w)")
  case None
  assume "bulkSyncWithPeer s p cb w = (r, w')"
  with None show ?thesis by (simp add: bulkSyncWithPeer_def)
next
  case (Some L)
  assume "bulkSyncWithPeer s p cb w = (r, w')"
  from bulkSyncWithPeer_trace_known[OF Some this] show ?thesis by auto
qed

lemma WatchSync_body_trace:
  "\<exists>evs. trace (step_world (WatchSync_body s cb m l sk w)) = trace w @ evs"
proof (cases "BestPeer m sk")
  case None
  then show ?thesis by (simp add: WatchSync_body_def)
next
  case (Some b)
  obtain r w2 where p: "bulkSyncWithPeer s (ID b) cb w = (r, w2)"
    by (cases "bulkSyncWithPeer s (ID b) cb w")
  from bulkSyncWithPeer_trace[OF p] obtain evs where "trace w2 = trace w @ evs" by blast
  with Some p show ?thesis
    by (auto simp: WatchSync_body_def Let_def split: result.splits)
qed

lemma WatchSync_loop_trace:
  "WatchSync_loop s cb wakeups l sk w = (r, w') \<Longrightarrow> \<exists>evs. trace w' = trace w @ evs"
proof (induction wakeups arbitrary: l sk w)
  case Nil
  then show ?case by simp
next
  case (Cons m wakeups)
  from WatchSync_body_trace[of s cb m l sk w] obtain evs where
    evs: "trace (step_world (WatchSync_body s cb m l sk w)) = trace w @ evs" by blast
  show ?case
  proof (cases "WatchSync_body s cb m l sk w")
    case (Continue l1 sk1 w1)
    with Cons.prems have "WatchSync_loop s cb wakeups l1 sk1 w1 = (r, w')" by simp
    from Cons.IH[OF this] evs Continue show ?thesis by auto
  next
    case (Break w1)
    with Cons.prems evs show ?thesis by auto
  next
    case (WPanicked w1)
    with Cons.prems evs show ?thesis by auto
  qed
qed

lemma WatchSync_loop_pulls:
  assumes best: "BestPeer m' sk = Some b"
      and hd: "Header (blockchain s) (chain w) = Some L"
      and above: "L < Number b"
  shows "\<exists>r w' evs. WatchSync_loop s cb (m' # wakeups) l sk w = (r, w') \<and>
           trace w' = trace w @ EvGetBlocks (ID b) (L + 1) (blockTimeout s) # evs"
proof -
  from hd have l: "updateLocalLatest s (chain w) l = L" by (simp add: updateLocalLatest_def)
  from above have nle: "\<not> Number b \<le> L" by simp
  obtain r0 w2 where p: "bulkSyncWithPeer s (ID b) cb w = (r0, w2)"
    by (cases "bulkSyncWithPeer s (ID b) cb w")
  from bulkSyncWithPeer_trace_known[OF hd p] obtain evs where
    np: "r0 \<noteq> Panic" and evs: "trace w2 = trace w @ EvGetBlocks (ID b) (L + 1) (blockTimeout s) # evs"
    by blast
  from np obtain n t err where r0: "r0 = Returned (n, t, err)"
    by (cases r0) auto
  have body: "WatchSync_body s cb m' l sk w =
     (if err \<noteq> None \<or> n < Number b then Continue L (insert (ID b) sk) w2
      else if t then Break w2 else Continue L sk w2)"
    by (simp add: WatchSync_body_def l best nle p r0)
  obtain r w' where res: "WatchSync_loop s cb (m' # wakeups) l sk w = (r, w')"
    by (cases "WatchSync_loop s cb (m' # wakeups) l sk w")
  have "\<exists>evs'. trace w' = trace w2 @ evs'"
  proof (cases "WatchSync_body s cb m' l sk w")
    case (Continue l1 sk1 w1)
    with body have "w1 = w2" by (auto split: if_splits)
    moreover from Continue res have "WatchSync_loop s cb wakeups l1 sk1 w1 = (r, w')" by simp
    ultimately show ?thesis using WatchSync_loop_trace by blast
  next
    case (Break w1)
    with body have "w1 = w2" by (auto split: if_splits)
    with Break res show ?thesis by simp
  next
    case (WPanicked w1)
    with body show ?thesis by (auto split: if_splits)
  qed
  with evs res show ?thesis by auto
qed

text \<open>
  Claim C7. When \<^verbatim>\<open>BestPeer\<close> finds no candidate outside the skip list, the pass does
  nothing but empty the skip list and go back to waiting: the next wake-up starts
  from the empty skip list in the same state. Every entry of the table was in the
  skip list; with the empty skip list a table that is not empty yields a candidate
  again, and this candidate is one of the peers that were skipped. The loop does
  reconsider it: when the table of the next wake-up has a best peer \<open>b\<close> that was on
  the skip list and advertises a height above the local head \<open>L\<close>, the first call the
  loop makes after the reset is \<^verbatim>\<open>GetBlocks\<close> to \<open>b\<close> from the height \<open>L + 1\<close>.
\<close>

theorem WatchSync_reconsiders_skipped_peers:
  assumes "BestPeer m sk = None"
  shows "WatchSync_body s cb m l sk w = Continue (updateLocalLatest s (chain w) l) {} w \<and>
         WatchSync_loop s cb (m # wakeups) l sk w =
           WatchSync_loop s cb wakeups (updateLocalLatest s (chain w) l) {} w \<and>
         (\<forall>p\<in>set m. ID p \<in> sk) \<and>
         (m \<noteq> [] \<longrightarrow> (\<exists>b\<in>set m. BestPeer m {} = Some b \<and> ID b \<in> sk)) \<and>
         (\<forall>m' b L later.
            BestPeer m' {} = Some b \<and> ID b \<in> sk \<and>
            Header (blockchain s) (chain w) = Some L \<and> L < Number b \<longrightarrow>
            (\<exists>r w' evs. WatchSync_loop s cb (m # m' # later) l sk w = (r, w') \<and>
               trace w' = trace w @ EvGetBlocks (ID b) (L + 1) (blockTimeout s) # evs))"
proof -
  have body: "WatchSync_body s cb m l sk w = Continue (updateLocalLatest s (chain w) l) {} w"
    using assms by (simp add: WatchSync_body_def)
  then have loop: "WatchSync_loop s cb (m # ws) l sk w =
           WatchSync_loop s cb ws (updateLocalLatest s (chain w) l) {} w" for ws
    by simp
  from assms have all: "\<forall>p\<in>set m. ID p \<in> sk" by (simp add: BestPeer_None)
  have again: "\<exists>b\<in>set m. BestPeer m {} = Some b \<and> ID b \<in> sk" if "m \<noteq> []"
  proof -
    from that have "BestPeer m {} \<noteq> None" by (auto simp: BestPeer_None)
    then obtain b where b: "BestPeer m {} = Some b" by auto
    with BestPeer_Some[OF b] all show ?thesis by auto
  qed
  have pulls: "\<exists>r w' evs. WatchSync_loop s cb (m # m' # later) l sk w = (r, w') \<and>
               trace w' = trace w @ EvGetBlocks (ID b) (L + 1) (blockTimeout s) # evs"
    if "BestPeer m' {} = Some b \<and> ID b \<in> sk \<and>
        Header (blockchain s) (chain w) = Some L \<and> L < Number b" for m' b L later
    unfolding loop using that WatchSync_loop_pulls[of m' "{}" b s w L cb later] by blast
  from body loop[of wakeups] all again pulls show ?thesis by blast
qed

theorem WatchSync_reconsiders_skipped_peers_witness:
  "BestPeer [\<lparr>ID = ''a'', Number = 3\<rparr>, \<lparr>ID = ''b'', Number = 4\<rparr>] {''a'', ''b''} = None \<and>
   BestPeer [\<lparr>ID = ''a'', Number = 3\<rparr>, \<lparr>ID = ''b'', Number = 4\<rparr>] {} = Some \<lparr>ID = ''b'', Number = 4\<rparr> \<and>
   WatchSync_body (test_syncer [(''b'', ([Block 3 7, Block 4 2], ChClosed))]) test_callback
     [\<lparr>ID = ''a'', Number = 3\<rparr>, \<lparr>ID = ''b'', Number = 4\<rparr>] 0 {''a'', ''b''} (test_world (Some 2)) =
     Continue 2 {} (test_world (Some 2)) \<and>
   WatchSync_loop (test_syncer [(''b'', ([Block 3 7, Block 4 2], ChClosed))]) test_callback
     [[\<lparr>ID = ''a'', Number = 3\<rparr>, \<lparr>ID = ''b'', Number = 4\<rparr>],
      [\<lparr>ID = ''a'', Number = 3\<rparr>, \<lparr>ID = ''b'', Number = 4\<rparr>]] 0 {''a'', ''b''} (test_world (Some 2)) =
     (WatchReturned None,
      \<lparr>chain = Some 4, cbstate = 2,
       trace = [EvGetBlocks ''b'' 3 10,
                EvVerifyFinalizedBlock (Block 3 7), EvWriteBlock (Block 3 7), EvCallback (Block 3 7) False,
                EvVerifyFinalizedBlock (Block 4 2), EvWriteBlock (Block 4 2), EvCallback (Block 4 2) True,
                EvCloseStream ''b'']\<rparr>)"
proof -
  let ?S = "test_syncer [(''b'', ([Block 3 7, Block 4 2], ChClosed))]"
  let ?M = "[\<lparr>ID = ''a'', Number = 3\<rparr>, \<lparr>ID = ''b'', Number = (4 :: uint64)\<rparr>]"
  let ?W' = "\<lparr>chain = Some (4 :: uint64), cbstate = 2 :: nat,
       trace = [EvGetBlocks ''b'' 3 10,
                EvVerifyFinalizedBlock (Block 3 7), EvWriteBlock (Block 3 7), EvCallback (Block 3 7) False,
                EvVerifyFinalizedBlock (Block 4 2), EvWriteBlock (Block 4 2), EvCallback (Block 4 2) True,
                EvCloseStream ''b'']\<rparr>"
  have none: "BestPeer ?M {''a'', ''b''} = None"
    by (simp add: BestPeer_def better_def)
  have best: "BestPeer ?M {} = Some \<lparr>ID = ''b'', Number = 4\<rparr>"
    by (simp add: BestPeer_def better_def)
  have l: "updateLocalLatest ?S (chain (test_world (Some 2))) l0 = 2" for l0
    by (simp add: updateLocalLatest_def test_defs)
  have pull: "bulkSyncWithPeer ?S ''b'' test_callback (test_world (Some 2)) =
                (Returned (4, True, None), ?W')"
    by (simp add: bulkSyncWithPeer_def test_defs recvLoop.simps emit_def)
  have b2: "WatchSync_body ?S test_callback ?M 2 {} (test_world (Some 2)) = Break ?W'"
    unfolding WatchSync_body_def l Let_def best by (simp add: pull)
  note th = WatchSync_reconsiders_skipped_peers[OF none, of ?S test_callback 0 "test_world (Some 2)" "[?M]"]
  from th have b1: "WatchSync_body ?S test_callback ?M 0 {''a'', ''b''} (test_world (Some 2)) =
      Continue 2 {} (test_world (Some 2))"
    unfolding l by (rule conjunct1)
  from th have "WatchSync_loop ?S test_callback [?M, ?M] 0 {''a'', ''b''} (test_world (Some 2)) =
      WatchSync_loop ?S test_callback [?M] 2 {} (test_world (Some 2))"
    unfolding l by (rule conjunct2[THEN conjunct1])
  also have "\<dots> = (WatchReturned None, ?W')"
    by (simp only: WatchSync_loop.simps b2 watch_step.case)
  finally show ?thesis using none best b1 by simp
qed

subsection \<open>The nil header\<close>

lemma bulkSyncWithPeer_Panic:
  "fst (bulkSyncWithPeer s p cb w) = Panic \<longleftrightarrow> Header (blockchain s) (chain w) = None"
  by (auto simp: bulkSyncWithPeer_def Let_def split: option.splits sum.splits prod.splits)

lemma BulkSync_body_NoCandidate:
  "\<forall>p\<in>set m. ID p \<notin> sk \<longrightarrow> Number p \<le> l \<Longrightarrow> BulkSync_body s cb m l sk w = NoCandidate w"
proof (cases "BestPeer m sk")
  case None
  then show ?thesis by (simp add: BulkSync_body_def)
next
  case (Some b)
  assume "\<forall>p\<in>set m. ID p \<notin> sk \<longrightarrow> Number p \<le> l"
  with BestPeer_Some[OF Some] have "Number b \<le> l" by blast
  with Some show ?thesis by (simp add: BulkSync_body_def)
qed

text \<open>
  Claim C10. \<^verbatim>\<open>bulkSyncWithPeer\<close> panics exactly when \<^verbatim>\<open>Header()\<close> is nil, and then before
  any other call; \<^verbatim>\<open>WatchSync\<close> panics at its first statement when \<^verbatim>\<open>Header()\<close> is nil,
  before it waits; \<^verbatim>\<open>HasSyncPeer\<close> panics exactly when \<^verbatim>\<open>Header()\<close> is nil and the peer
  map has a best peer (the conjunction of the source reads the header only then).
  \<^verbatim>\<open>BulkSync\<close> reads the header under a nil check: with a nil header it takes 0 as the
  local height, starts the progression at 1 and, when no peer advertises a height
  above 0, returns nil.
\<close>

theorem nil_header_is_dereferenced:
  "(fst (bulkSyncWithPeer s p cb w) = Panic \<longleftrightarrow> Header (blockchain s) (chain w) = None) \<and>
   (Header (blockchain s) (chain w) = None \<longrightarrow>
      bulkSyncWithPeer s p cb w = (Panic, w) \<and> WatchSync s cb wakeups w = (WatchPanic, w)) \<and>
   (HasSyncPeer s pm c = Panic \<longleftrightarrow>
      Header (blockchain s) c = None \<and> (\<exists>m b. pm = Some m \<and> BestPeer m {} = Some b)) \<and>
   (Header (blockchain s) (chain w) = None \<and> (\<forall>q\<in>set m. Number q = 0) \<longrightarrow>
      BulkSync s cb m w =
        Some (Returned None,
              emit EvStopProgression (emit (EvStartProgression 1) (emit EvSubscribeEvents w))))"
proof -
  have a: "fst (bulkSyncWithPeer s p cb w) = Panic \<longleftrightarrow> Header (blockchain s) (chain w) = None"
    by (rule bulkSyncWithPeer_Panic)
  have b: "bulkSyncWithPeer s p cb w = (Panic, w) \<and> WatchSync s cb wakeups w = (WatchPanic, w)"
    if "Header (blockchain s) (chain w) = None"
    using that by (simp add: bulkSyncWithPeer_def WatchSync_def)
  have c: "HasSyncPeer s pm c = Panic \<longleftrightarrow>
      Header (blockchain s) c = None \<and> (\<exists>m b. pm = Some m \<and> BestPeer m {} = Some b)"
    by (auto simp: HasSyncPeer_def split: option.splits)
  have d: "BulkSync s cb m w =
        Some (Returned None,
              emit EvStopProgression (emit (EvStartProgression 1) (emit EvSubscribeEvents w)))"
    if "Header (blockchain s) (chain w) = None \<and> (\<forall>q\<in>set m. Number q = 0)"
  proof -
    from that have l: "updateLocalLatest s (chain w) 0 = 0" by (simp add: updateLocalLatest_def)
    let ?w0 = "emit (EvStartProgression 1) (emit EvSubscribeEvents w)"
    from that have "BulkSync_body s cb m 0 {} ?w0 = NoCandidate ?w0"
      by (intro BulkSync_body_NoCandidate) simp
    then have "BulkSync_loop s cb m 0 {} ?w0 = Some (ExitNoCandidate, ?w0)"
      by (subst BulkSync_loop.simps) simp
    then show ?thesis unfolding BulkSync_def l Let_def by simp
  qed
  from a b c d show ?thesis by blast
qed

theorem nil_header_is_dereferenced_witness:
  "bulkSyncWithPeer (test_syncer [(''a'', ([Block 1 7], ChClosed))]) ''a'' test_callback (test_world None) =
     (Panic, test_world None) \<and>
   WatchSync (test_syncer [(''a'', ([Block 1 7], ChClosed))]) test_callback
     [[\<lparr>ID = ''a'', Number = 1\<rparr>]] (test_world None) = (WatchPanic, test_world None) \<and>
   HasSyncPeer (test_syncer [(''a'', ([Block 1 7], ChClosed))]) (Some [\<lparr>ID = ''a'', Number = 1\<rparr>]) None = Panic \<and>
   HasSyncPeer (test_syncer [(''a'', ([Block 1 7], ChClosed))]) (Some []) None \<noteq> Panic \<and>
   BulkSync (test_syncer [(''a'', ([Block 1 7], ChClosed))]) test_callback
     [\<lparr>ID = ''a'', Number = 0\<rparr>] (test_world None) =
     Some (Returned None,
           \<lparr>chain = None, cbstate = 0,
            trace = [EvSubscribeEvents, EvStartProgression 1, EvStopProgression]\<rparr>)"
proof -
  let ?S = "test_syncer [(''a'', ([Block 1 7], ChClosed))]"
  have hd: "Header (blockchain ?S) (chain (test_world None)) = None" by (simp add: test_defs)
  have hd': "Header (blockchain ?S) None = None" by (simp add: test_defs)
  have best: "BestPeer [\<lparr>ID = ''a'', Number = 1\<rparr>] {} = Some \<lparr>ID = ''a'', Number = 1\<rparr>"
    by (simp add: BestPeer_def better_def)
  have nobest: "BestPeer [] {} = None" by (simp add: BestPeer_def)
  note th = nil_header_is_dereferenced[of ?S "''a''" test_callback "test_world None"
      "[[\<lparr>ID = ''a'', Number = 1\<rparr>]]" _ None "[\<lparr>ID = ''a'', Number = 0\<rparr>]"]
  from th[of "Some [\<lparr>ID = ''a'', Number = 1\<rparr>]"] th[of "Some []"] hd hd' best nobest
  show ?thesis by (simp add: emit_def test_world_def)
qed

subsection \<open>Errors of a peer in the bulk loop\<close>

lemma BulkSync_body_failure_skips:
  assumes "BestPeer m sk = Some b" "l < Number b"
    "bulkSyncWithPeer s (ID b) cb (emit (EvUpdateHighestProgression (Number b)) w) =
       (Returned (n, t, Some e), w2)"
  shows "BulkSync_body s cb m l sk w =
           TryNext (updateLocalLatest s (chain w2) l) (insert (ID b) sk) w2"
  using assms by (simp add: BulkSync_body_def Let_def not_le[symmetric])

lemma BulkSync_loop_no_panic:
  assumes known: "\<forall>c. Header (blockchain s) c \<noteq> None"
  shows "\<exists>x w'. BulkSync_loop s cb m l sk w = Some (x, w') \<and> x \<noteq> ExitPanic"
proof (induction "length (filter (\<lambda>p. ID p \<notin> sk) m)" arbitrary: l sk w rule: less_induct)
  case less
  show ?case
  proof (cases "BulkSync_body s cb m l sk w")
    case (TryNext l' sk' w')
    from BulkSync_body_TryNext[OF this] obtain p where
      p: "p \<in> set m" "ID p \<notin> sk" "sk' = insert (ID p) sk" by blast
    have "filter (\<lambda>q. ID q \<notin> sk') m =
            filter (\<lambda>q. ID q \<noteq> ID p) (filter (\<lambda>q. ID q \<notin> sk) m)"
      unfolding p(3) by (auto intro: filter_cong)
    moreover have "length (filter (\<lambda>q. ID q \<noteq> ID p) (filter (\<lambda>q. ID q \<notin> sk) m))
                     < length (filter (\<lambda>q. ID q \<notin> sk) m)"
      using p(1,2) by (intro length_filter_less[of p]) auto
    ultimately have "length (filter (\<lambda>q. ID q \<notin> sk') m) < length (filter (\<lambda>q. ID q \<notin> sk) m)"
      by simp
    from less[OF this] obtain x w'' where
      "BulkSync_loop s cb m l' sk' w' = Some (x, w'')" "x \<noteq> ExitPanic" by blast
    with TryNext show ?thesis by (subst BulkSync_loop.simps) simp
  next
    case (Panicked w')
    then obtain b :: NoForkPeer where
      "bulkSyncWithPeer s (ID b) cb (emit (EvUpdateHighestProgression (Number b)) w) = (Panic, w')"
      by (auto simp: BulkSync_body_def Let_def split: option.splits if_splits prod.splits result.splits)
    then have "fst (bulkSyncWithPeer s (ID b) cb (emit (EvUpdateHighestProgression (Number b)) w)) = Panic"
      by simp
    then have "Header (blockchain s) (chain (emit (EvUpdateHighestProgression (Number b)) w)) = None"
      by (simp only: bulkSyncWithPeer_Panic)
    with known show ?thesis by blast
  qed (subst BulkSync_loop.simps, simp)+
qed

lemma BulkSync_returns_nil_when_head_known:
  assumes "\<forall>c. Header (blockchain s) c \<noteq> None"
  shows "\<exists>w'. BulkSync s cb m w = Some (Returned None, w')"
proof -
  let ?l = "updateLocalLatest s (chain w) 0"
  let ?w0 = "emit (EvStartProgression (?l + 1)) (emit EvSubscribeEvents w)"
  from BulkSync_loop_no_panic[OF assms, of cb m ?l "{}" ?w0] obtain x w1 where
    "BulkSync_loop s cb m ?l {} ?w0 = Some (x, w1)" "x \<noteq> ExitPanic" by blast
  then show ?thesis by (cases x) (simp_all add: BulkSync_def Let_def)
qed

lemma BulkSync_panics_without_head:
  assumes hd: "Header (blockchain s) (chain w) = None"
      and best: "BestPeer m {} = Some b" and pos: "0 < Number b"
  shows "BulkSync s cb m w =
           Some (Panic, emit EvStopProgression (emit (EvUpdateHighestProgression (Number b))
                   (emit (EvStartProgression 1) (emit EvSubscribeEvents w))))"
proof -
  from hd have l: "updateLocalLatest s (chain w) 0 = 0" by (simp add: updateLocalLatest_def)
  let ?w0 = "emit (EvStartProgression 1) (emit EvSubscribeEvents w)"
  let ?w1 = "emit (EvUpdateHighestProgression (Number b)) ?w0"
  from hd have "bulkSyncWithPeer s (ID b) cb ?w1 = (Panic, ?w1)"
    by (simp add: bulkSyncWithPeer_def emit_simps)
  with best pos have "BulkSync_body s cb m 0 {} ?w0 = Panicked ?w1"
    by (simp add: BulkSync_body_def Let_def not_le[symmetric] word_le_0_iff word_greater_zero_iff)
  then have "BulkSync_loop s cb m 0 {} ?w0 = Some (ExitPanic, ?w1)"
    by (subst BulkSync_loop.simps) simp
  then show ?thesis unfolding BulkSync_def l Let_def by simp
qed

text \<open>
  Claim C5. When the head of the chain is known in every state of the store, every
  run of \<^verbatim>\<open>BulkSync\<close> returns nil (\<open>BulkSync_returns_nil_when_head_known\<close>), and a pull
  that returns an error puts the peer on the skip list and the loop goes on
  (\<open>BulkSync_body_failure_skips\<close>). With a nil header the nil check of \<^verbatim>\<open>BulkSync\<close>
  lets the run go on with the local height 0, and the first pull dereferences the nil
  header: \<^verbatim>\<open>BulkSync\<close> does not return nil, it panics
  (\<open>BulkSync_panics_without_head\<close>). The theorem is this run on the concrete instance:
  the head is unknown and one peer advertises the height 1.
\<close>

theorem BulkSync_nil_header_panics:
  "BulkSync (test_syncer [(''a'', ([Block 1 7], ChClosed))]) test_callback
     [\<lparr>ID = ''a'', Number = 1\<rparr>] (test_world None) =
   Some (Panic,
         \<lparr>chain = None, cbstate = 0,
          trace = [EvSubscribeEvents, EvStartProgression 1, EvUpdateHighestProgression 1,
                   EvStopProgression]\<rparr>)"
proof -
  let ?S = "test_syncer [(''a'', ([Block 1 7], ChClosed))]"
  have hd: "Header (blockchain ?S) (chain (test_world None)) = None" by (simp add: test_defs)
  have best: "BestPeer [\<lparr>ID = ''a'', Number = 1\<rparr>] {} = Some \<lparr>ID = ''a'', Number = 1\<rparr>"
    by (simp add: BestPeer_def better_def)
  from BulkSync_panics_without_head[OF hd best, of test_callback]
  show ?thesis by (simp add: emit_def test_world_def)
qed

end
